theory Spec2Isabelle
  imports Complex_Main "HOL-Library.Char_ord" "HOL-Library.List_Lexorder"
begin

section \<open>The batch experiment script \<open>scripts/improved/run_database.py\<close>\<close>

text \<open>
  The script reads optimisation problems from files, solves each one exactly and with
  one quantum solve per penalty strategy, and books objective values, spectral gaps and
  feasibility figures into the arrays of one \<open>Datas\<close> object.

  Conventions of the embedding.
  \<^item> A numpy \<open>float64\<close> that is finite is a \<open>real\<close>; rounding error of the float
    operations is not modelled. A true division, the one operation of the script that
    can leave the finite numbers, returns an \<open>npfloat\<close>.
  \<^item> A numpy array of \<open>Datas\<close> is a function from the index tuple (a \<open>nat list\<close>) to the
    cell; the preallocated shape is taken to fit the indices of the run.
  \<^item> The object \<open>data\<close> is mutated in place, so every function that writes takes the
    \<open>datas\<close> and returns the updated one, also when it raises.
  \<^item> The collaborators that are not part of the script (the model reader, the two
    solvers, the Hamiltonian builders, the eigen-solver, the file system) are fields of
    the records \<open>problem\<close> and \<open>env\<close>: deterministic functions of their arguments.
  \<^item> \<open>print\<close> and the scoped warning filters have no effect on the data and are left out.
\<close>

subsection \<open>Errors and numbers\<close>

datatype error =
    ValueError string   \<comment> \<open>the \<open>raise ValueError(...)\<close> of \<open>run_test\<close>, with its message\<close>
  | NumpyValueError     \<comment> \<open>a \<open>ValueError\<close> raised inside numpy: shapes that do not broadcast, \<open>np.min\<close> of an empty array\<close>
  | IndexError          \<comment> \<open>an index out of range\<close>
  | FileNotFoundError   \<comment> \<open>\<open>listdir\<close> of a folder that does not exist\<close>
  | OutsideModel        \<comment> \<open>the run left the finite, well-shaped matrices this embedding covers\<close>

datatype npfloat = Fin real | PInf | NInf | NaN

text \<open>
  numpy's true division of two \<open>float64\<close> scalars does not raise on a zero divisor: it
  warns and returns \<open>inf\<close>, \<open>-inf\<close> or \<open>nan\<close>. Every divisor of the script is a
  difference or a count, so a zero divisor is \<open>+0.0\<close>.
\<close>

definition np_divide :: "real \<Rightarrow> real \<Rightarrow> npfloat" where
  "np_divide a b =
     (if b \<noteq> 0 then Fin (a / b)
      else if a = 0 then NaN
      else if 0 < a then PInf else NInf)"

text \<open>\<open>np.rint\<close>: the nearest integer, a tie going to the even neighbour.\<close>

definition rint :: "real \<Rightarrow> int" where
  "rint v =
     (let f = \<lfloor>v\<rfloor>; r = v - of_int f
      in if r < 1 / 2 then f
         else if 1 / 2 < r then f + 1
         else if even f then f else f + 1)"

text \<open>\<open>np.unique\<close> of a one-dimensional array: the distinct values in ascending order.\<close>

definition np_unique :: "real list \<Rightarrow> real list" where
  "np_unique vs = sort (remdups vs)"

text \<open>
  An elementwise operation of two one-dimensional arrays, with numpy's broadcasting:
  equal lengths go pointwise, a length-one operand is stretched, anything else raises.
\<close>

definition np_elementwise ::
  "(real \<Rightarrow> real \<Rightarrow> real) \<Rightarrow> real list \<Rightarrow> real list \<Rightarrow> error + real list" where
  "np_elementwise f a b =
     (if length a = length b then Inr (map2 f a b)
      else if length a = 1 then Inr (map (f (hd a)) b)
      else if length b = 1 then Inr (map (\<lambda>v. f v (hd b)) a)
      else Inl NumpyValueError)"

text \<open>\<open>xs[M_idx] = v\<close> for a row of \<open>n\<close> cells: \<open>v\<close> must broadcast to the row.\<close>

definition assign_row :: "nat \<Rightarrow> int list \<Rightarrow> error + int list" where
  "assign_row n v =
     (if length v = n then Inr v
      else if length v = 1 then Inr (replicate n (hd v))
      else Inl NumpyValueError)"

subsection \<open>Matrices\<close>

type_synonym matrix = "real list list"

definition np_diag :: "real list \<Rightarrow> matrix" where
  "np_diag h = map (\<lambda>i. map (\<lambda>j. if i = j then h ! i else 0) [0..<length h]) [0..<length h]"

definition mat_scale :: "real \<Rightarrow> matrix \<Rightarrow> matrix" where
  "mat_scale c A = map (map ((*) c)) A"

definition same_shape :: "matrix \<Rightarrow> matrix \<Rightarrow> bool" where
  "same_shape A B \<longleftrightarrow> map length A = map length B"

text \<open>
  The sum of two matrices of one shape. The initial Hamiltonian of a register and the
  diagonal matrix of the target have one shape; a run where they do not is reported as
  \<open>OutsideModel\<close>.
\<close>

definition mat_add :: "matrix \<Rightarrow> matrix \<Rightarrow> error + matrix" where
  "mat_add A B = (if same_shape A B then Inr (map2 (map2 (+)) A B) else Inl OutsideModel)"

subsection \<open>Decimal numerals of \<open>str\<close>\<close>

fun str_nat :: "nat \<Rightarrow> string" where
  "str_nat n =
     (if n < 10 then [char_of (48 + n)]
      else str_nat (n div 10) @ [char_of (48 + n mod 10)])"

declare str_nat.simps [simp del]

subsection \<open>The results collection\<close>

datatype field =
  FVAL | PENALTY_M | TIME | GAP | GAP_NORM | GAP_MINIMAL | IS_FEASIBLE | N_VIOLATIONS | MAX_VIOLATION

text \<open>
  The arrays of \<open>Datas\<close> that the script touches. The class itself is declared in
  \<open>ds.py\<close>. \<open>penalty_M\<close> is the array \<open>data.M\<close>. The last field is a trace kept for the
  verification only: every array store appends the array and the index it wrote.
\<close>

record datas =
  bvars :: "nat list"
  fval :: "nat list \<Rightarrow> real"
  penalty_M :: "nat list \<Rightarrow> real"
  time :: "nat list \<Rightarrow> real"
  gap :: "nat list \<Rightarrow> real"
  gap_norm :: "nat list \<Rightarrow> npfloat"
  gap_minimal :: "nat list \<Rightarrow> npfloat"
  is_feasible :: "nat list \<Rightarrow> bool"
  n_violations :: "nat list \<Rightarrow> nat"
  max_violation :: "nat list \<Rightarrow> real"
  writes :: "(field \<times> nat list) list"

definition set_fval :: "nat list \<Rightarrow> real \<Rightarrow> datas \<Rightarrow> datas" where
  "set_fval k v d = d\<lparr>fval := (fval d)(k := v), writes := writes d @ [(FVAL, k)]\<rparr>"

definition set_M :: "nat list \<Rightarrow> real \<Rightarrow> datas \<Rightarrow> datas" where
  "set_M k v d = d\<lparr>penalty_M := (penalty_M d)(k := v), writes := writes d @ [(PENALTY_M, k)]\<rparr>"

definition set_time :: "nat list \<Rightarrow> real \<Rightarrow> datas \<Rightarrow> datas" where
  "set_time k v d = d\<lparr>time := (time d)(k := v), writes := writes d @ [(TIME, k)]\<rparr>"

definition set_gap :: "nat list \<Rightarrow> real \<Rightarrow> datas \<Rightarrow> datas" where
  "set_gap k v d = d\<lparr>gap := (gap d)(k := v), writes := writes d @ [(GAP, k)]\<rparr>"

definition set_gap_norm :: "nat list \<Rightarrow> npfloat \<Rightarrow> datas \<Rightarrow> datas" where
  "set_gap_norm k v d = d\<lparr>gap_norm := (gap_norm d)(k := v), writes := writes d @ [(GAP_NORM, k)]\<rparr>"

definition set_gap_minimal :: "nat list \<Rightarrow> npfloat \<Rightarrow> datas \<Rightarrow> datas" where
  "set_gap_minimal k v d =
     d\<lparr>gap_minimal := (gap_minimal d)(k := v), writes := writes d @ [(GAP_MINIMAL, k)]\<rparr>"

definition set_is_feasible :: "nat list \<Rightarrow> bool \<Rightarrow> datas \<Rightarrow> datas" where
  "set_is_feasible k v d =
     d\<lparr>is_feasible := (is_feasible d)(k := v), writes := writes d @ [(IS_FEASIBLE, k)]\<rparr>"

definition set_n_violations :: "nat list \<Rightarrow> nat \<Rightarrow> datas \<Rightarrow> datas" where
  "set_n_violations k v d =
     d\<lparr>n_violations := (n_violations d)(k := v), writes := writes d @ [(N_VIOLATIONS, k)]\<rparr>"

definition set_max_violation :: "nat list \<Rightarrow> real \<Rightarrow> datas \<Rightarrow> datas" where
  "set_max_violation k v d =
     d\<lparr>max_violation := (max_violation d)(k := v), writes := writes d @ [(MAX_VIOLATION, k)]\<rparr>"

subsection \<open>The problem instance and its collaborators\<close>

record constraint =
  evaluate :: "int list \<Rightarrow> real"
  rhs :: real

record opt_result =
  res_fval :: real
  res_x :: "real list"
  res_success :: bool   \<comment> \<open>\<open>status == OptimizationResultStatus.SUCCESS\<close>\<close>

type_synonym strategy = string

text \<open>
  The methods of \<open>Problem\<close> (declared in \<open>ds.py\<close>) and of its quadratic program \<open>qp\<close>
  that the script calls. \<open>solve_quantum\<close> returns the result, the penalty \<open>M\<close> and the
  elapsed time; \<open>qp_violated_constraints\<close> is component 2 of \<open>get_feasibility_info\<close>.
  A Hamiltonian is the vector of its diagonal.
\<close>

record problem =
  qp_name :: string
  solve_exact :: opt_result
  solve_quantum :: "strategy \<Rightarrow> opt_result \<times> real \<times> real"
  get_obj_hamiltonian :: "real list"
  get_constraint_hamiltonian :: "real list"
  get_gap_total :: "real list \<Rightarrow> real list \<Rightarrow> real \<Rightarrow> real"
  qp_is_feasible :: "int list \<Rightarrow> bool"
  qp_violated_constraints :: "int list \<Rightarrow> constraint list"

record env =
  listdir :: "string \<Rightarrow> string list option"
  read_model :: "string \<Rightarrow> problem"
  initial_hamiltonian_adiabatic :: "nat \<Rightarrow> matrix"
  eigvalsh :: "matrix \<Rightarrow> real list"

subsection \<open>\<open>evaluate_feasibility\<close>\<close>

fun max_viol_loop :: "int list \<Rightarrow> constraint list \<Rightarrow> real \<Rightarrow> real" where
  "max_viol_loop x [] max_viol = max_viol"
| "max_viol_loop x (cons # rest) max_viol =
     (let violation = \<bar>evaluate cons x - rhs cons\<bar>
      in max_viol_loop x rest (if violation > max_viol then violation else max_viol))"

definition evaluate_feasibility :: "problem \<Rightarrow> int list \<Rightarrow> nat \<times> nat \<times> nat \<Rightarrow> datas \<Rightarrow> datas" where
  "evaluate_feasibility p x indexes d =
     (case indexes of (i0, i1, i2) \<Rightarrow>
        if qp_is_feasible p x then set_is_feasible [i0, i1, i2] True d
        else
          let violated_cons = qp_violated_constraints p x;
              d1 = set_n_violations [i0, i1, i2] (length violated_cons) d;
              max_viol = max_viol_loop x violated_cons 0
          in set_max_violation [i0, i1, i2] max_viol d1)"

subsection \<open>Loops\<close>

text \<open>
  \<open>for k in range(...): body\<close>: the body runs at each index in turn on the state
  the previous round left; an exception ends the loop and leaves the state as it was
  when it was raised.
\<close>

fun for_each :: "(nat \<Rightarrow> 's \<Rightarrow> error option \<times> 's) \<Rightarrow> nat list \<Rightarrow> 's \<Rightarrow> error option \<times> 's" where
  "for_each body [] s = (None, s)"
| "for_each body (k # ks) s =
     (case body k s of
        (None, s') \<Rightarrow> for_each body ks s'
      | (Some err, s') \<Rightarrow> (Some err, s'))"

subsection \<open>\<open>run_instance\<close>\<close>

definition alpha :: real where
  "alpha = 98 / 100"

text \<open>Line 53, \<open>H + M*Hc\<close>: the combined Hamiltonian for the penalty \<open>M\<close>.\<close>

definition combined_hamiltonian :: "problem \<Rightarrow> real \<Rightarrow> error + real list" where
  "combined_hamiltonian p M =
     np_elementwise (+) (get_obj_hamiltonian p) (map ((*) M) (get_constraint_hamiltonian p))"

text \<open>Line 57, \<open>np.max(np.abs([min_e, max_e])) / bvars\<close>.\<close>

definition beta_of :: "real list \<Rightarrow> nat \<Rightarrow> npfloat" where
  "beta_of H' bv = np_divide (max \<bar>Min (set H')\<bar> \<bar>Max (set H')\<bar>) (real bv)"

text \<open>
  Lines 60 to 67 for a finite \<open>beta_fixed\<close>: the value stored in \<open>data.gap_minimal\<close>,
  or the \<open>IndexError\<close> of \<open>evs[1]\<close> when the spectrum has fewer than two distinct values.
\<close>

definition adiabatic_minimal_gap :: "env \<Rightarrow> nat \<Rightarrow> real \<Rightarrow> real list \<Rightarrow> error + npfloat" where
  "adiabatic_minimal_gap e bv beta_fixed H' =
     (let H_0 = mat_scale beta_fixed (initial_hamiltonian_adiabatic e bv)
      in case mat_add (mat_scale (1 - alpha) H_0) (mat_scale alpha (np_diag H')) of
           Inl err \<Rightarrow> Inl err
         | Inr H_mix \<Rightarrow>
             let evs = np_unique (eigvalsh e H_mix)
             in if length evs < 2 then Inl IndexError
                else Inr (np_divide (evs ! 1 - evs ! 0) (last evs - evs ! 0)))"

text \<open>
  Lines 48 to 67, the body of \<open>if analyze_gaps:\<close> for the strategy \<open>M_idx\<close> with
  penalty \<open>M\<close>. The state is \<open>data\<close> and the local \<open>beta_fixed\<close>; \<open>bv\<close> is the local
  \<open>bvars\<close>. A \<open>beta_fixed\<close> that is not finite (a size of zero variables) makes \<open>H_0\<close>
  a matrix of \<open>inf\<close> or \<open>nan\<close>; what the eigen-solver does with it is not covered.
\<close>

definition gap_analysis ::
  "env \<Rightarrow> problem \<Rightarrow> nat \<Rightarrow> nat \<times> nat \<Rightarrow> bool \<Rightarrow> bool \<Rightarrow> bool \<Rightarrow> nat \<Rightarrow> real \<Rightarrow>
   datas \<times> npfloat \<Rightarrow> error option \<times> datas \<times> npfloat" where
  "gap_analysis e p bv indexes analyze_gaps analyze_gaps_qite analyze_gaps_adiabatic M_idx M st =
     (case st of (d, beta_fixed) \<Rightarrow>
      case indexes of (i0, i1) \<Rightarrow>
      if \<not> analyze_gaps then (None, d, beta_fixed)
      else
        let H = get_obj_hamiltonian p;
            Hc = get_constraint_hamiltonian p;
            d1 = set_gap [i0, i1, M_idx] (get_gap_total p H Hc M) d
        in if \<not> analyze_gaps_qite then (None, d1, beta_fixed)
           else
             (case combined_hamiltonian p M of
                Inl err \<Rightarrow> (Some err, d1, beta_fixed)
              | Inr H' \<Rightarrow>
                  if H' = [] then (Some NumpyValueError, d1, beta_fixed)
                  else
                    let min_e = Min (set H');
                        max_e = Max (set H');
                        d2 = set_gap_norm [i0, i1, M_idx]
                               (np_divide (gap d1 [i0, i1, M_idx]) (max_e - min_e)) d1
                    in if \<not> analyze_gaps_adiabatic then (None, d2, beta_fixed)
                       else
                         let beta = beta_of H' bv;
                             beta_fixed' = (if M_idx = 0 then beta else beta_fixed)
                         in (case beta_fixed' of
                               Fin b \<Rightarrow>
                                 (case adiabatic_minimal_gap e bv b H' of
                                    Inl err \<Rightarrow> (Some err, d2, beta_fixed')
                                  | Inr g \<Rightarrow>
                                      (None, set_gap_minimal [i0, i1, M_idx] g d2, beta_fixed'))
                             | _ \<Rightarrow> (Some OutsideModel, d2, beta_fixed'))))"

text \<open>
  One round of \<open>for M_idx in range(len(M_strategies))\<close>, lines 39 to 67. The state is
  \<open>data\<close>, the local array \<open>xs\<close> and the local \<open>beta_fixed\<close>.
\<close>

definition strategy_iteration ::
  "env \<Rightarrow> problem \<Rightarrow> opt_result \<Rightarrow> strategy list \<Rightarrow> nat \<Rightarrow> nat \<times> nat \<Rightarrow> bool \<Rightarrow> bool \<Rightarrow> bool \<Rightarrow>
   nat \<Rightarrow> datas \<times> int list list \<times> npfloat \<Rightarrow> error option \<times> datas \<times> int list list \<times> npfloat" where
  "strategy_iteration e p c_res M_strategies bv indexes analyze_gaps analyze_gaps_qite
       analyze_gaps_adiabatic M_idx st =
     (case st of (d, xs, beta_fixed) \<Rightarrow>
      case indexes of (i0, i1) \<Rightarrow>
      case solve_quantum p (M_strategies ! M_idx) of (q_res, M, t) \<Rightarrow>
        let d1 = set_fval [i0, i1, 0, M_idx] (of_int (rint (res_fval c_res))) d;
            d2 = set_fval [i0, i1, 1, M_idx] (of_int (rint (res_fval q_res))) d1;
            d3 = set_M [i0, i1, M_idx] M d2;
            d4 = set_time [i0, i1, M_idx] t d3
        in (case assign_row bv (map rint (res_x q_res)) of
              Inl err \<Rightarrow> (Some err, d4, xs, beta_fixed)
            | Inr row \<Rightarrow>
                (case gap_analysis e p bv indexes analyze_gaps analyze_gaps_qite
                        analyze_gaps_adiabatic M_idx M (d4, beta_fixed) of
                   (r, d5, beta_fixed') \<Rightarrow> (r, d5, xs[M_idx := row], beta_fixed'))))"

text \<open>
  \<open>run_instance\<close> returns the pair \<open>(p, xs)\<close> or raises, and leaves \<open>data\<close> updated in
  both cases. \<open>np.ndarray\<close> does not initialise \<open>xs\<close>; the loop assigns every row.
\<close>

definition run_instance ::
  "env \<Rightarrow> string \<Rightarrow> strategy list \<Rightarrow> nat \<times> nat \<Rightarrow> bool \<Rightarrow> bool \<Rightarrow> bool \<Rightarrow> datas \<Rightarrow>
   (error + problem \<times> int list list) \<times> datas" where
  "run_instance e filename M_strategies indexes analyze_gaps analyze_gaps_qite
       analyze_gaps_adiabatic data =
     (case indexes of (i0, i1) \<Rightarrow>
      if \<not> i0 < length (bvars data) then (Inl IndexError, data)
      else
        let bv = bvars data ! i0;
            p = (read_model e filename)\<lparr>qp_name := filename\<rparr>;
            c_res = solve_exact p;
            xs = replicate (length M_strategies) (replicate bv 0)
        in (case for_each
                   (strategy_iteration e p c_res M_strategies bv indexes analyze_gaps
                      analyze_gaps_qite analyze_gaps_adiabatic)
                   [0..<length M_strategies] (data, xs, Fin 0) of
              (Some err, d', xs', beta_fixed) \<Rightarrow> (Inl err, d')
            | (None, d', xs', beta_fixed) \<Rightarrow> (Inr (p, xs'), d')))"

subsection \<open>\<open>run_test\<close>\<close>

text \<open>
  Modelled from the spec: the constructor \<open>Datas(bvars, n_samples, n_M_strategies)\<close> of
  \<open>ds.py\<close>, which is not part of the script. The spec has the arrays allocated once per
  batch run with dimensions derived from the sizes, samples and strategies; \<open>run_instance\<close>
  reads the sizes back as \<open>data.bvars\<close>. The contents the arrays are given at allocation
  are the parameter \<open>blank\<close>.
\<close>

definition Datas :: "datas \<Rightarrow> nat list \<Rightarrow> nat \<Rightarrow> nat \<Rightarrow> datas" where
  "Datas blank bvs n_samples n_M_strategies = blank\<lparr>bvars := bvs, writes := []\<rparr>"

text \<open>Lines 102 and 103: the feasibility of every strategy's rounded solution.\<close>

definition feasibility_iteration ::
  "problem \<Rightarrow> int list list \<Rightarrow> nat \<Rightarrow> nat \<Rightarrow> nat \<Rightarrow> datas \<Rightarrow> error option \<times> datas" where
  "feasibility_iteration p xs i sample bigM_idx d =
     (if bigM_idx < length xs
      then (None, evaluate_feasibility p (xs ! bigM_idx) (i, sample, bigM_idx) d)
      else (Some IndexError, d))"

text \<open>One round of \<open>for sample in range(n_samples)\<close>, lines 99 to 103.\<close>

definition sample_iteration ::
  "env \<Rightarrow> string \<Rightarrow> string list \<Rightarrow> strategy list \<Rightarrow> nat \<Rightarrow> bool \<Rightarrow> bool \<Rightarrow> bool \<Rightarrow>
   nat \<Rightarrow> datas \<Rightarrow> error option \<times> datas" where
  "sample_iteration e folder files M_strategies i analyze_gaps analyze_gaps_qite
       analyze_gaps_adiabatic sample d =
     (let filename = folder @ files ! sample
      in case run_instance e filename M_strategies (i, sample) analyze_gaps analyze_gaps_qite
                analyze_gaps_adiabatic d of
           (Inl err, d') \<Rightarrow> (Some err, d')
         | (Inr (p, xs), d') \<Rightarrow>
             for_each (feasibility_iteration p xs i sample) [0..<length M_strategies] d')"

definition folder_of :: "string \<Rightarrow> nat \<Rightarrow> string" where
  "folder_of test_set n_qubs = test_set @ ''/'' @ str_nat n_qubs @ ''/''"

definition folder_error :: "string \<Rightarrow> nat \<Rightarrow> nat \<Rightarrow> error" where
  "folder_error folder n_files n_samples =
     ValueError (''Folder '' @ folder @ '' contains only '' @ str_nat n_files
                 @ '' instances, '' @ str_nat n_samples @ '' were requested'')"

text \<open>One round of \<open>for i in range(len(bvars))\<close>, lines 90 to 105.\<close>

definition size_iteration ::
  "env \<Rightarrow> string \<Rightarrow> nat list \<Rightarrow> nat \<Rightarrow> strategy list \<Rightarrow> bool \<Rightarrow> bool \<Rightarrow> bool \<Rightarrow>
   nat \<Rightarrow> datas \<Rightarrow> error option \<times> datas" where
  "size_iteration e test_set bvs n_samples M_strategies analyze_gaps analyze_gaps_qite
       analyze_gaps_adiabatic i d =
     (let n_qubs = bvs ! i;
          folder = folder_of test_set n_qubs
      in case listdir e folder of
           None \<Rightarrow> (Some FileNotFoundError, d)
         | Some names \<Rightarrow>
             let files = sort names
             in if length files < n_samples
                then (Some (folder_error folder (length files) n_samples), d)
                else for_each
                       (sample_iteration e folder files M_strategies i analyze_gaps
                          analyze_gaps_qite analyze_gaps_adiabatic)
                       [0..<n_samples] d)"

text \<open>
  \<open>run_test\<close> returns \<open>data\<close> (the first component is \<open>None\<close>) or raises; the second
  component is \<open>data\<close> as the run left it.
\<close>

definition run_test ::
  "env \<Rightarrow> datas \<Rightarrow> string \<Rightarrow> nat list \<Rightarrow> nat \<Rightarrow> strategy list \<Rightarrow> bool \<Rightarrow> bool \<Rightarrow> bool \<Rightarrow>
   error option \<times> datas" where
  "run_test e blank test_set bvs n_samples M_strategies analyze_gaps analyze_gaps_qite
       analyze_gaps_adiabatic =
     (let n_M_strategies = length M_strategies;
          data = Datas blank bvs n_samples n_M_strategies
      in for_each
           (size_iteration e test_set bvs n_samples M_strategies analyze_gaps analyze_gaps_qite
              analyze_gaps_adiabatic)
           [0..<length bvs] data)"

subsection \<open>A small batch used to run the definitions\<close>

text \<open>
  One size of two binary variables, three instance files, two strategies. The target
  Hamiltonians are diagonal, the initial Hamiltonian of this batch is diagonal too, and
  the eigenvalues of a diagonal matrix are its diagonal, sorted.
\<close>

definition blank_datas :: datas where
  "blank_datas =
     \<lparr>bvars = [], fval = (\<lambda>k. 0), penalty_M = (\<lambda>k. 0), time = (\<lambda>k. 0), gap = (\<lambda>k. 0),
      gap_norm = (\<lambda>k. Fin 0), gap_minimal = (\<lambda>k. Fin 0), is_feasible = (\<lambda>k. False),
      n_violations = (\<lambda>k. 0), max_violation = (\<lambda>k. 0), writes = []\<rparr>"

definition toy_constraints :: "constraint list" where
  "toy_constraints =
     [\<lparr>evaluate = (\<lambda>x. 13 / 10 * of_int (x ! 0) + of_int (x ! 1)), rhs = 1\<rparr>,
      \<lparr>evaluate = (\<lambda>x. 17 / 10 * of_int (x ! 0)), rhs = 1\<rparr>]"

definition toy_problem :: problem where
  "toy_problem =
     \<lparr>qp_name = [],
      solve_exact = \<lparr>res_fval = 5 / 2, res_x = [0, 1], res_success = True\<rparr>,
      solve_quantum =
        (\<lambda>s. if s = ''a''
             then (\<lparr>res_fval = 7 / 2, res_x = [9 / 10, 1 / 5], res_success = True\<rparr>, 2, 1 / 4)
             else (\<lparr>res_fval = 4 / 3, res_x = [1 / 10, 6 / 5], res_success = True\<rparr>, 6, 1 / 2)),
      get_obj_hamiltonian = [0, 1, 1, 2],
      get_constraint_hamiltonian = [0, 0, 0, 1],
      get_gap_total = (\<lambda>H Hc M. 1),
      qp_is_feasible = (\<lambda>x. list_all (\<lambda>c. evaluate c x \<le> rhs c) toy_constraints),
      qp_violated_constraints = (\<lambda>x. filter (\<lambda>c. \<not> evaluate c x \<le> rhs c) toy_constraints)\<rparr>"

definition toy_env :: env where
  "toy_env =
     \<lparr>listdir = (\<lambda>f. if f = ''toys/2/'' then Some [''c.lp'', ''a.lp'', ''b.lp''] else None),
      read_model = (\<lambda>f. toy_problem),
      initial_hamiltonian_adiabatic = (\<lambda>n. np_diag (1 # replicate (2 ^ n - 1) 0)),
      eigvalsh = (\<lambda>A. sort (map (\<lambda>i. A ! i ! i) [0..<length A]))\<rparr>"

definition toy_data :: datas where
  "toy_data = Datas blank_datas [2] 3 2"

text \<open>The first sample of the batch, with all three analyses enabled.\<close>

definition toy_sample :: "(error + problem \<times> int list list) \<times> datas" where
  "toy_sample =
     run_instance toy_env ''toys/2/a.lp'' [''a'', ''b''] (0, 0) True True True toy_data"

section \<open>Verification\<close>

subsection \<open>The feasibility evaluator\<close>

lemmas set_defs = set_fval_def set_M_def set_time_def set_gap_def set_gap_norm_def
  set_gap_minimal_def set_is_feasible_def set_n_violations_def set_max_violation_def

lemma max_viol_loop_Max:
  "max_viol_loop x cs m = Max (insert m ((\<lambda>c. \<bar>evaluate c x - rhs c\<bar>) ` set cs))"
proof (induction cs arbitrary: m)
  case Nil
  then show ?case by simp
next
  case (Cons c cs)
  let ?v = "\<bar>evaluate c x - rhs c\<bar>"
  let ?S = "(\<lambda>c. \<bar>evaluate c x - rhs c\<bar>) ` set cs"
  have fin: "finite ?S" by simp
  have "max_viol_loop x (c # cs) m = Max (insert (max ?v m) ?S)"
    using Cons.IH [of "if ?v > m then ?v else m"] by (simp add: Let_def max_def)
  also have "\<dots> = Max (insert m (insert ?v ?S))"
    using fin by (cases "?S = {}") (simp_all add: max.commute max.left_commute max.assoc)
  finally show ?case by (simp add: insert_commute)
qed

lemma max_viol_loop_nonempty:
  assumes "cs \<noteq> []"
  shows "max_viol_loop x cs 0 = Max ((\<lambda>c. \<bar>evaluate c x - rhs c\<bar>) ` set cs)"
proof -
  let ?S = "(\<lambda>c. \<bar>evaluate c x - rhs c\<bar>) ` set cs"
  have ne: "?S \<noteq> {}" and fin: "finite ?S" using assms by simp_all
  obtain c where "c \<in> set cs" using assms by (cases cs) auto
  then have "\<bar>evaluate c x - rhs c\<bar> \<in> ?S" by blast
  then have "0 \<le> Max ?S" using fin by (meson Max_ge abs_ge_zero order_trans)
  then show ?thesis
    using fin ne by (simp add: max_viol_loop_Max max_def)
qed

lemma evaluate_feasibility_eq:
  "evaluate_feasibility p x (i, s, j) d =
     (if qp_is_feasible p x
      then d\<lparr>is_feasible := (is_feasible d)([i, s, j] := True),
             writes := writes d @ [(IS_FEASIBLE, [i, s, j])]\<rparr>
      else d\<lparr>n_violations := (n_violations d)([i, s, j] := length (qp_violated_constraints p x)),
             max_violation := (max_violation d)([i, s, j] := max_viol_loop x (qp_violated_constraints p x) 0),
             writes := writes d @ [(N_VIOLATIONS, [i, s, j]), (MAX_VIOLATION, [i, s, j])]\<rparr>)"
  by (simp add: evaluate_feasibility_def set_defs Let_def)

text \<open>
  C5. A call of \<open>evaluate_feasibility\<close> at the slot \<open>(i, s, j)\<close>: a feasible solution
  sets the slot's feasibility flag; otherwise the slot's violation count is the number of
  violated constraints and its maximum violation is the largest
  \<open>|constraint_value(x) - right_hand_side|\<close> over them (the loop starts from 0, which is
  what an empty list of violated constraints records). Two violations of 0.3 and 0.7
  record a count of 2 and a maximum of 0.7.
\<close>

theorem evaluate_feasibility_records:
  fixes p x i s j d
  defines "d' \<equiv> evaluate_feasibility p x (i, s, j) d"
    and "cs \<equiv> qp_violated_constraints p x"
    and "viol \<equiv> (\<lambda>c. \<bar>evaluate c x - rhs c\<bar>)"
  shows "(qp_is_feasible p x \<longrightarrow> is_feasible d' [i, s, j] = True) \<and>
         (\<not> qp_is_feasible p x \<longrightarrow>
            n_violations d' [i, s, j] = length cs \<and>
            max_violation d' [i, s, j] = Max (insert 0 (viol ` set cs)) \<and>
            (cs \<noteq> [] \<longrightarrow> max_violation d' [i, s, j] = Max (viol ` set cs)) \<and>
            (map viol cs = [3 / 10, 7 / 10] \<longrightarrow>
               n_violations d' [i, s, j] = 2 \<and> max_violation d' [i, s, j] = 7 / 10))"
proof -
  have feas: "qp_is_feasible p x \<Longrightarrow> is_feasible d' [i, s, j] = True"
    by (simp add: d'_def evaluate_feasibility_eq)
  have cnt: "\<not> qp_is_feasible p x \<Longrightarrow> n_violations d' [i, s, j] = length cs"
    by (simp add: d'_def cs_def evaluate_feasibility_eq)
  have mv: "\<not> qp_is_feasible p x \<Longrightarrow> max_violation d' [i, s, j] = max_viol_loop x cs 0"
    by (simp add: d'_def cs_def evaluate_feasibility_eq)
  have m1: "max_viol_loop x cs 0 = Max (insert 0 (viol ` set cs))"
    by (simp add: max_viol_loop_Max viol_def)
  have m2: "cs \<noteq> [] \<Longrightarrow> max_viol_loop x cs 0 = Max (viol ` set cs)"
    by (simp add: max_viol_loop_nonempty viol_def)
  have m3: "max_viol_loop x cs 0 = 7 / 10" and l3: "length cs = 2"
    if "map viol cs = [3 / 10, 7 / 10]"
  proof -
    from that obtain a b where cs: "cs = [a, b]" and a: "viol a = 3 / 10" and b: "viol b = 7 / 10"
      by (auto simp: map_eq_Cons_conv)
    show "length cs = 2" by (simp add: cs)
    have "max_viol_loop x cs 0 =
            (if viol b > (if viol a > 0 then viol a else 0) then viol b
             else (if viol a > 0 then viol a else 0))"
      by (simp add: cs viol_def Let_def)
    then show "max_viol_loop x cs 0 = 7 / 10"
      by (simp add: a b)
  qed
  show ?thesis
    using feas cnt mv m1 m2 m3 l3 by simp
qed

theorem evaluate_feasibility_records_witness:
  "is_feasible (evaluate_feasibility toy_problem [0, 1] (0, 0, 1) blank_datas) [0, 0, 1] \<and>
   n_violations (evaluate_feasibility toy_problem [1, 0] (0, 0, 0) blank_datas) [0, 0, 0] = 2 \<and>
   max_violation (evaluate_feasibility toy_problem [1, 0] (0, 0, 0) blank_datas) [0, 0, 0] = 7 / 10"
proof -
  have f: "qp_is_feasible toy_problem [0, 1]"
    by (simp add: toy_problem_def toy_constraints_def)
  have nf: "\<not> qp_is_feasible toy_problem [1, 0]"
    by (simp add: toy_problem_def toy_constraints_def)
  have v: "map (\<lambda>c. \<bar>evaluate c [1, 0] - rhs c\<bar>) (qp_violated_constraints toy_problem [1, 0])
             = [3 / 10, 7 / 10]"
    by (simp add: toy_problem_def toy_constraints_def)
  show ?thesis
    using evaluate_feasibility_records [of toy_problem "[0, 1]" 0 0 1 blank_datas]
      evaluate_feasibility_records [of toy_problem "[1, 0]" 0 0 0 blank_datas] f nf v
    by simp
qed

text \<open>
  C9. The evaluator stores in the arrays of its branch only. For a feasible solution the
  one store is the feasibility flag of the slot, and the violation count and the maximum
  violation keep their contents; for an infeasible one the stores are the slot's violation
  count and maximum violation, and the feasibility flags keep their contents (the flag
  is not set to false). No other array changes in either branch.
\<close>

theorem evaluate_feasibility_frame:
  fixes p x i s j d
  defines "d' \<equiv> evaluate_feasibility p x (i, s, j) d"
  shows "fval d' = fval d \<and> penalty_M d' = penalty_M d \<and> time d' = time d \<and>
         gap d' = gap d \<and> gap_norm d' = gap_norm d \<and> gap_minimal d' = gap_minimal d \<and>
         bvars d' = bvars d \<and>
         (qp_is_feasible p x \<longrightarrow>
            is_feasible d' = (is_feasible d)([i, s, j] := True) \<and>
            n_violations d' = n_violations d \<and> max_violation d' = max_violation d \<and>
            writes d' = writes d @ [(IS_FEASIBLE, [i, s, j])]) \<and>
         (\<not> qp_is_feasible p x \<longrightarrow>
            is_feasible d' = is_feasible d \<and>
            (\<forall>k. k \<noteq> [i, s, j] \<longrightarrow>
               n_violations d' k = n_violations d k \<and> max_violation d' k = max_violation d k) \<and>
            writes d' = writes d @ [(N_VIOLATIONS, [i, s, j]), (MAX_VIOLATION, [i, s, j])])"
  by (simp add: d'_def evaluate_feasibility_eq)

theorem evaluate_feasibility_frame_witness:
  "is_feasible (evaluate_feasibility toy_problem [1, 0] (0, 0, 0) blank_datas) [0, 0, 0] = False \<and>
   n_violations (evaluate_feasibility toy_problem [0, 1] (0, 0, 1) blank_datas) [0, 0, 1] = 0 \<and>
   max_violation (evaluate_feasibility toy_problem [0, 1] (0, 0, 1) blank_datas) [0, 0, 1] = 0"
proof -
  have f: "qp_is_feasible toy_problem [0, 1]"
    by (simp add: toy_problem_def toy_constraints_def)
  have nf: "\<not> qp_is_feasible toy_problem [1, 0]"
    by (simp add: toy_problem_def toy_constraints_def)
  show ?thesis
    using evaluate_feasibility_frame [of toy_problem "[0, 1]" 0 0 1 blank_datas]
      evaluate_feasibility_frame [of toy_problem "[1, 0]" 0 0 0 blank_datas] f nf
    by (simp add: blank_datas_def)
qed

subsection \<open>Loops\<close>

lemma for_each_invariant:
  assumes "for_each body js s = (r, s')" and "P s"
    and "\<And>k t r' t'. k \<in> set js \<Longrightarrow> P t \<Longrightarrow> body k t = (r', t') \<Longrightarrow> P t'"
  shows "P s'"
  using assms
proof (induction js arbitrary: s)
  case Nil
  then show ?case by simp
next
  case (Cons k ks)
  obtain r1 t where b: "body k s = (r1, t)" by (cases "body k s")
  have Pt: "P t" using Cons.prems(2,3) b by auto
  show ?case
  proof (cases r1)
    case None
    then have "for_each body ks t = (r, s')" using Cons.prems(1) b by simp
    then show ?thesis using Cons.IH [of t] Pt Cons.prems(3) by auto
  next
    case (Some err)
    then have "s' = t" using Cons.prems(1) b by simp
    then show ?thesis using Pt by simp
  qed
qed

lemma for_each_cells:
  assumes "for_each body js s = (None, s')" and "sorted_wrt (<) js"
    and est: "\<And>k t t'. k \<in> set js \<Longrightarrow> body k t = (None, t') \<Longrightarrow> Q k t'"
    and pres: "\<And>j k t r' t'. j < k \<Longrightarrow> k \<in> set js \<Longrightarrow> body k t = (r', t') \<Longrightarrow> Q j t \<Longrightarrow> Q j t'"
  shows "\<forall>j\<in>set js. Q j s'"
  using assms(1,2) est pres
proof (induction js arbitrary: s)
  case Nil
  then show ?case by simp
next
  case (Cons k ks)
  obtain r1 t where b: "body k s = (r1, t)" by (cases "body k s")
  have r1: "r1 = None" using Cons.prems(1) b by (cases r1) auto
  have rest: "for_each body ks t = (None, s')" using Cons.prems(1) b r1 by simp
  have Qk: "Q k t" using Cons.prems(3) [of k s t] b r1 by simp
  have gt: "\<forall>k'\<in>set ks. k < k'" using Cons.prems(2) by simp
  have "Q k s'"
    by (rule for_each_invariant [OF rest, where P = "Q k"])
       (use Qk gt Cons.prems(4) in auto)
  moreover have "\<forall>j\<in>set ks. Q j s'"
    by (rule Cons.IH [OF rest]) (use Cons.prems in auto)
  ultimately show ?case by simp
qed

lemma for_each_append:
  "for_each body (js @ ks) s =
     (case for_each body js s of
        (None, t) \<Rightarrow> for_each body ks t
      | (Some err, t) \<Rightarrow> (Some err, t))"
  by (induction js arbitrary: s) (auto split: prod.splits option.splits)

subsection \<open>The gap analysis of one strategy\<close>

lemma gap_analysis_frame:
  assumes "gap_analysis e p bv (i, s) ag agq aga j M (d, bf) = (r, d', bf')"
  shows "fval d' = fval d" "penalty_M d' = penalty_M d" "time d' = time d"
    "is_feasible d' = is_feasible d" "n_violations d' = n_violations d"
    "max_violation d' = max_violation d" "bvars d' = bvars d"
  using assms
  by (auto simp: gap_analysis_def Let_def set_defs
      split: if_splits sum.splits npfloat.splits)

lemma gap_analysis_gap:
  assumes "gap_analysis e p bv (i, s) ag agq aga j M (d, bf) = (r, d', bf')"
  shows "gap d' = (if ag then (gap d)([i, s, j] :=
                      get_gap_total p (get_obj_hamiltonian p) (get_constraint_hamiltonian p) M)
                   else gap d)"
  using assms
  by (auto simp: gap_analysis_def Let_def set_defs
      split: if_splits sum.splits npfloat.splits)

lemma gap_analysis_other:
  assumes "gap_analysis e p bv (i, s) ag agq aga j M (d, bf) = (r, d', bf')"
    and "k \<noteq> [i, s, j]"
  shows "gap_norm d' k = gap_norm d k" "gap_minimal d' k = gap_minimal d k"
  using assms
  by (auto simp: gap_analysis_def Let_def set_defs
      split: if_splits sum.splits npfloat.splits)

lemma gap_analysis_beta:
  assumes "gap_analysis e p bv (i, s) ag agq aga j M (d, bf) = (r, d', bf')"
    and "j \<noteq> 0"
  shows "bf' = bf"
  using assms
  by (auto simp: gap_analysis_def Let_def set_defs
      split: if_splits sum.splits npfloat.splits)

lemma gap_analysis_norm:
  assumes "gap_analysis e p bv (i, s) True True aga j M (d, bf) = (None, d', bf')"
  shows "\<exists>H'. combined_hamiltonian p M = Inr H' \<and> H' \<noteq> [] \<and>
           gap_norm d' [i, s, j] = np_divide (gap d' [i, s, j]) (Max (set H') - Min (set H'))"
  using assms
  by (auto simp: gap_analysis_def Let_def set_defs
      split: if_splits sum.splits npfloat.splits)

lemma gap_analysis_minimal:
  assumes "gap_analysis e p bv (i, s) True True True j M (d, bf) = (None, d', bf')"
  shows "\<exists>H' b. combined_hamiltonian p M = Inr H' \<and> H' \<noteq> [] \<and>
           bf' = Fin b \<and> bf' = (if j = 0 then beta_of H' bv else bf) \<and>
           adiabatic_minimal_gap e bv b H' = Inr (gap_minimal d' [i, s, j])"
  using assms
  by (auto simp: gap_analysis_def Let_def set_defs
      split: if_splits sum.splits npfloat.splits) metis

lemma gap_analysis_writes:
  assumes "gap_analysis e p bv (i, s) ag agq aga j M (d, bf) = (r, d', bf')"
  shows "\<exists>new. writes d' = writes d @ new \<and> distinct new \<and>
           set new \<subseteq> {(GAP, [i, s, j]), (GAP_NORM, [i, s, j]), (GAP_MINIMAL, [i, s, j])}"
  using assms
  by (auto simp: gap_analysis_def Let_def set_defs
      split: if_splits sum.splits npfloat.splits)

subsection \<open>One round of the strategy loop\<close>

lemma strategy_iteration_cases:
  assumes run: "strategy_iteration e p c strats bv (i, s) ag agq aga j (d, xs, bf) = (r, d', xs', bf')"
  obtains (shape) err where
      "assign_row bv (map rint (res_x (fst (solve_quantum p (strats ! j))))) = Inl err"
      "r = Some err" "xs' = xs" "bf' = bf"
      "d' = set_time [i, s, j] (snd (snd (solve_quantum p (strats ! j))))
             (set_M [i, s, j] (fst (snd (solve_quantum p (strats ! j))))
               (set_fval [i, s, 1, j] (of_int (rint (res_fval (fst (solve_quantum p (strats ! j))))))
                 (set_fval [i, s, 0, j] (of_int (rint (res_fval c))) d)))"
    | (analysed) row where
      "assign_row bv (map rint (res_x (fst (solve_quantum p (strats ! j))))) = Inr row"
      "xs' = xs[j := row]"
      "gap_analysis e p bv (i, s) ag agq aga j (fst (snd (solve_quantum p (strats ! j))))
         (set_time [i, s, j] (snd (snd (solve_quantum p (strats ! j))))
             (set_M [i, s, j] (fst (snd (solve_quantum p (strats ! j))))
               (set_fval [i, s, 1, j] (of_int (rint (res_fval (fst (solve_quantum p (strats ! j))))))
                 (set_fval [i, s, 0, j] (of_int (rint (res_fval c))) d))), bf) = (r, d', bf')"
  using run
  by (auto simp: strategy_iteration_def Let_def split: prod.splits sum.splits)


lemma strategy_iteration_frame:
  assumes "strategy_iteration e p c strats bv (i, s) ag agq aga j (d, xs, bf) = (r, d', xs', bf')"
  shows "fval d' = (fval d)([i, s, 0, j] := of_int (rint (res_fval c)),
                            [i, s, 1, j] := of_int (rint (res_fval (fst (solve_quantum p (strats ! j)))))) \<and>
    penalty_M d' = (penalty_M d)([i, s, j] := fst (snd (solve_quantum p (strats ! j)))) \<and>
    time d' = (time d)([i, s, j] := snd (snd (solve_quantum p (strats ! j)))) \<and>
    is_feasible d' = is_feasible d \<and> n_violations d' = n_violations d \<and>
    max_violation d' = max_violation d \<and> bvars d' = bvars d"
  using assms
proof (cases rule: strategy_iteration_cases)
  case (shape err)
  then show ?thesis by (simp add: set_defs)
next
  case (analysed row)
  show ?thesis
    using gap_analysis_frame [OF analysed(3)] by (simp add: set_defs)
qed

lemma strategy_iteration_other:
  assumes "strategy_iteration e p c strats bv (i, s) ag agq aga j (d, xs, bf) = (r, d', xs', bf')"
    and "k \<noteq> [i, s, j]"
  shows "gap d' k = gap d k \<and> gap_norm d' k = gap_norm d k \<and> gap_minimal d' k = gap_minimal d k"
  using assms(1)
proof (cases rule: strategy_iteration_cases)
  case (shape err)
  then show ?thesis by (simp add: set_defs)
next
  case (analysed row)
  show ?thesis
    using gap_analysis_other [OF analysed(3) assms(2)] gap_analysis_gap [OF analysed(3)] assms(2)
    by (simp add: set_defs)
qed

lemma strategy_iteration_beta:
  assumes "strategy_iteration e p c strats bv (i, s) ag agq aga j (d, xs, bf) = (r, d', xs', bf')"
    and "j \<noteq> 0"
  shows "bf' = bf"
  using assms(1)
proof (cases rule: strategy_iteration_cases)
  case (shape err)
  then show ?thesis by simp
next
  case (analysed row)
  show ?thesis by (rule gap_analysis_beta [OF analysed(3) assms(2)])
qed

lemma strategy_iteration_xs:
  assumes "strategy_iteration e p c strats bv (i, s) ag agq aga j (d, xs, bf) = (r, d', xs', bf')"
  shows "length xs' = length xs" and "k \<noteq> j \<Longrightarrow> xs' ! k = xs ! k"
    and "r = None \<Longrightarrow> j < length xs \<Longrightarrow>
           assign_row bv (map rint (res_x (fst (solve_quantum p (strats ! j))))) = Inr (xs' ! j)"
  using assms
  by (cases rule: strategy_iteration_cases; simp)+

lemma strategy_iteration_gap:
  assumes "strategy_iteration e p c strats bv (i, s) True agq aga j (d, xs, bf) = (None, d', xs', bf')"
  shows "gap d' [i, s, j] = get_gap_total p (get_obj_hamiltonian p) (get_constraint_hamiltonian p)
                              (fst (snd (solve_quantum p (strats ! j))))"
  using assms
proof (cases rule: strategy_iteration_cases)
  case (shape err)
  then show ?thesis by simp
next
  case (analysed row)
  show ?thesis
    using gap_analysis_gap [OF analysed(3)] by simp
qed

lemma strategy_iteration_norm:
  assumes "strategy_iteration e p c strats bv (i, s) True True aga j (d, xs, bf) = (None, d', xs', bf')"
  shows "\<exists>H'. combined_hamiltonian p (fst (snd (solve_quantum p (strats ! j)))) = Inr H' \<and> H' \<noteq> [] \<and>
           gap_norm d' [i, s, j] = np_divide (gap d' [i, s, j]) (Max (set H') - Min (set H'))"
  using assms
proof (cases rule: strategy_iteration_cases)
  case (shape err)
  then show ?thesis by simp
next
  case (analysed row)
  show ?thesis by (rule gap_analysis_norm [OF analysed(3)])
qed

lemma strategy_iteration_minimal:
  assumes "strategy_iteration e p c strats bv (i, s) True True True j (d, xs, bf) = (None, d', xs', bf')"
  shows "\<exists>H' b. combined_hamiltonian p (fst (snd (solve_quantum p (strats ! j)))) = Inr H' \<and> H' \<noteq> [] \<and>
           bf' = Fin b \<and> bf' = (if j = 0 then beta_of H' bv else bf) \<and>
           adiabatic_minimal_gap e bv b H' = Inr (gap_minimal d' [i, s, j])"
  using assms
proof (cases rule: strategy_iteration_cases)
  case (shape err)
  then show ?thesis by simp
next
  case (analysed row)
  show ?thesis by (rule gap_analysis_minimal [OF analysed(3)])
qed

lemma strategy_iteration_writes:
  assumes "strategy_iteration e p c strats bv (i, s) ag agq aga j (d, xs, bf) = (r, d', xs', bf')"
  shows "\<exists>new. writes d' = writes d @ (FVAL, [i, s, 0, j]) # new \<and> distinct new \<and>
           set new \<subseteq> {(FVAL, [i, s, 1, j]), (PENALTY_M, [i, s, j]), (TIME, [i, s, j]),
                       (GAP, [i, s, j]), (GAP_NORM, [i, s, j]), (GAP_MINIMAL, [i, s, j])}"
  using assms
proof (cases rule: strategy_iteration_cases)
  case (shape err)
  then show ?thesis by (simp add: set_defs)
next
  case (analysed row)
  obtain new where n: "writes d' = writes d @ [(FVAL, [i, s, 0, j]), (FVAL, [i, s, 1, j]),
        (PENALTY_M, [i, s, j]), (TIME, [i, s, j])] @ new"
     and dn: "distinct new"
     and sn: "set new \<subseteq> {(GAP, [i, s, j]), (GAP_NORM, [i, s, j]), (GAP_MINIMAL, [i, s, j])}"
    using gap_analysis_writes [OF analysed(3)] by (auto simp: set_defs)
  have "distinct ([(FVAL, [i, s, 1, j]), (PENALTY_M, [i, s, j]), (TIME, [i, s, j])] @ new)"
    using dn sn by auto
  moreover have "set ([(FVAL, [i, s, 1, j]), (PENALTY_M, [i, s, j]), (TIME, [i, s, j])] @ new)
      \<subseteq> {(FVAL, [i, s, 1, j]), (PENALTY_M, [i, s, j]), (TIME, [i, s, j]),
                       (GAP, [i, s, j]), (GAP_NORM, [i, s, j]), (GAP_MINIMAL, [i, s, j])}"
    using sn by auto
  ultimately show ?thesis using n by (intro exI [of _ "[(FVAL, [i, s, 1, j]), (PENALTY_M, [i, s, j]), (TIME, [i, s, j])] @ new"]) simp
qed

subsection \<open>The strategy loop\<close>

lemma run_instance_Inr:
  assumes "run_instance e filename strats (i, s) ag agq aga d = (Inr (p, xs'), d')"
  obtains bf' where "i < length (bvars d)"
    and "p = (read_model e filename)\<lparr>qp_name := filename\<rparr>"
    and "for_each (strategy_iteration e p (solve_exact p) strats (bvars d ! i) (i, s) ag agq aga)
           [0..<length strats] (d, replicate (length strats) (replicate (bvars d ! i) 0), Fin 0)
         = (None, d', xs', bf')"
  using assms
  by (auto simp: run_instance_def Let_def split: if_splits prod.splits option.splits)

lemma strategy_loop_cells:
  assumes run: "for_each (strategy_iteration e p c strats bv (i, s) ag agq aga) js st = (None, st')"
    and js: "sorted_wrt (<) js"
  shows "\<forall>j\<in>set js.
           fval (fst st') [i, s, 0, j] = of_int (rint (res_fval c)) \<and>
           fval (fst st') [i, s, 1, j] = of_int (rint (res_fval (fst (solve_quantum p (strats ! j))))) \<and>
           penalty_M (fst st') [i, s, j] = fst (snd (solve_quantum p (strats ! j))) \<and>
           time (fst st') [i, s, j] = snd (snd (solve_quantum p (strats ! j)))"
proof (rule for_each_cells [OF run js])
  fix k t t'
  assume "strategy_iteration e p c strats bv (i, s) ag agq aga k t = (None, t')"
  then show "fval (fst t') [i, s, 0, k] = of_int (rint (res_fval c)) \<and>
           fval (fst t') [i, s, 1, k] = of_int (rint (res_fval (fst (solve_quantum p (strats ! k))))) \<and>
           penalty_M (fst t') [i, s, k] = fst (snd (solve_quantum p (strats ! k))) \<and>
           time (fst t') [i, s, k] = snd (snd (solve_quantum p (strats ! k)))"
    using strategy_iteration_frame [of e p c strats bv i s ag agq aga k "fst t" "fst (snd t)" "snd (snd t)"
        None "fst t'" "fst (snd t')" "snd (snd t')"]
    by simp
next
  fix j k t r' t'
  assume "j < k"
    and "strategy_iteration e p c strats bv (i, s) ag agq aga k t = (r', t')"
    and "fval (fst t) [i, s, 0, j] = of_int (rint (res_fval c)) \<and>
           fval (fst t) [i, s, 1, j] = of_int (rint (res_fval (fst (solve_quantum p (strats ! j))))) \<and>
           penalty_M (fst t) [i, s, j] = fst (snd (solve_quantum p (strats ! j))) \<and>
           time (fst t) [i, s, j] = snd (snd (solve_quantum p (strats ! j)))"
  then show "fval (fst t') [i, s, 0, j] = of_int (rint (res_fval c)) \<and>
           fval (fst t') [i, s, 1, j] = of_int (rint (res_fval (fst (solve_quantum p (strats ! j))))) \<and>
           penalty_M (fst t') [i, s, j] = fst (snd (solve_quantum p (strats ! j))) \<and>
           time (fst t') [i, s, j] = snd (snd (solve_quantum p (strats ! j)))"
    using strategy_iteration_frame [of e p c strats bv i s ag agq aga k "fst t" "fst (snd t)" "snd (snd t)"
        r' "fst t'" "fst (snd t')" "snd (snd t')"]
    by simp
qed


lemma strategy_loop_xs:
  assumes run: "for_each (strategy_iteration e p c strats bv (i, s) ag agq aga) js st = (None, st')"
    and js: "sorted_wrt (<) js"
  shows "\<forall>j\<in>set js. j < length (fst (snd st')) \<longrightarrow>
           assign_row bv (map rint (res_x (fst (solve_quantum p (strats ! j))))) = Inr (fst (snd st') ! j)"
proof (rule for_each_cells [OF run js])
  fix k t t'
  assume "strategy_iteration e p c strats bv (i, s) ag agq aga k t = (None, t')"
  then have "strategy_iteration e p c strats bv (i, s) ag agq aga k (fst t, fst (snd t), snd (snd t))
               = (None, fst t', fst (snd t'), snd (snd t'))"
    by simp
  then show "k < length (fst (snd t')) \<longrightarrow>
           assign_row bv (map rint (res_x (fst (solve_quantum p (strats ! k))))) = Inr (fst (snd t') ! k)"
    using strategy_iteration_xs(1) strategy_iteration_xs(3) by metis
next
  fix j k t r' t'
  assume jk: "j < k"
    and "strategy_iteration e p c strats bv (i, s) ag agq aga k t = (r', t')"
    and Q: "j < length (fst (snd t)) \<longrightarrow>
           assign_row bv (map rint (res_x (fst (solve_quantum p (strats ! j))))) = Inr (fst (snd t) ! j)"
  then have it: "strategy_iteration e p c strats bv (i, s) ag agq aga k (fst t, fst (snd t), snd (snd t))
               = (r', fst t', fst (snd t'), snd (snd t'))"
    by simp
  show "j < length (fst (snd t')) \<longrightarrow>
           assign_row bv (map rint (res_x (fst (solve_quantum p (strats ! j))))) = Inr (fst (snd t') ! j)"
    using strategy_iteration_xs(1,2) [OF it] jk Q by simp
qed

lemma strategy_loop_gap:
  assumes run: "for_each (strategy_iteration e p c strats bv (i, s) True agq aga) js st = (None, st')"
    and js: "sorted_wrt (<) js"
  shows "\<forall>j\<in>set js. gap (fst st') [i, s, j] = get_gap_total p (get_obj_hamiltonian p) (get_constraint_hamiltonian p)
                              (fst (snd (solve_quantum p (strats ! j))))"
proof (rule for_each_cells [OF run js])
  fix k t t'
  assume "strategy_iteration e p c strats bv (i, s) True agq aga k t = (None, t')"
  then have "strategy_iteration e p c strats bv (i, s) True agq aga k (fst t, fst (snd t), snd (snd t))
               = (None, fst t', fst (snd t'), snd (snd t'))"
    by simp
  then show "gap (fst t') [i, s, k] = get_gap_total p (get_obj_hamiltonian p) (get_constraint_hamiltonian p)
                              (fst (snd (solve_quantum p (strats ! k))))"
    by (rule strategy_iteration_gap)
next
  fix j k t r' t'
  assume jk: "j < k"
    and "strategy_iteration e p c strats bv (i, s) True agq aga k t = (r', t')"
    and Q: "gap (fst t) [i, s, j] = get_gap_total p (get_obj_hamiltonian p) (get_constraint_hamiltonian p)
                              (fst (snd (solve_quantum p (strats ! j))))"
  then have it: "strategy_iteration e p c strats bv (i, s) True agq aga k (fst t, fst (snd t), snd (snd t))
               = (r', fst t', fst (snd t'), snd (snd t'))"
    by simp
  show "gap (fst t') [i, s, j] = get_gap_total p (get_obj_hamiltonian p) (get_constraint_hamiltonian p)
                              (fst (snd (solve_quantum p (strats ! j))))"
    using strategy_iteration_other [OF it, of "[i, s, j]"] jk Q by simp
qed

lemma strategy_loop_norm:
  assumes run: "for_each (strategy_iteration e p c strats bv (i, s) True True aga) js st = (None, st')"
    and js: "sorted_wrt (<) js"
  shows "\<forall>j\<in>set js. \<exists>H'. combined_hamiltonian p (fst (snd (solve_quantum p (strats ! j)))) = Inr H' \<and> H' \<noteq> [] \<and>
           gap_norm (fst st') [i, s, j] = np_divide (gap (fst st') [i, s, j]) (Max (set H') - Min (set H'))"
proof (rule for_each_cells [OF run js])
  fix k t t'
  assume "strategy_iteration e p c strats bv (i, s) True True aga k t = (None, t')"
  then have "strategy_iteration e p c strats bv (i, s) True True aga k (fst t, fst (snd t), snd (snd t))
               = (None, fst t', fst (snd t'), snd (snd t'))"
    by simp
  then show "\<exists>H'. combined_hamiltonian p (fst (snd (solve_quantum p (strats ! k)))) = Inr H' \<and> H' \<noteq> [] \<and>
           gap_norm (fst t') [i, s, k] = np_divide (gap (fst t') [i, s, k]) (Max (set H') - Min (set H'))"
    by (rule strategy_iteration_norm)
next
  fix j k t r' t'
  assume jk: "j < k"
    and "strategy_iteration e p c strats bv (i, s) True True aga k t = (r', t')"
    and Q: "\<exists>H'. combined_hamiltonian p (fst (snd (solve_quantum p (strats ! j)))) = Inr H' \<and> H' \<noteq> [] \<and>
           gap_norm (fst t) [i, s, j] = np_divide (gap (fst t) [i, s, j]) (Max (set H') - Min (set H'))"
  then have it: "strategy_iteration e p c strats bv (i, s) True True aga k (fst t, fst (snd t), snd (snd t))
               = (r', fst t', fst (snd t'), snd (snd t'))"
    by simp
  show "\<exists>H'. combined_hamiltonian p (fst (snd (solve_quantum p (strats ! j)))) = Inr H' \<and> H' \<noteq> [] \<and>
           gap_norm (fst t') [i, s, j] = np_divide (gap (fst t') [i, s, j]) (Max (set H') - Min (set H'))"
    using strategy_iteration_other [OF it, of "[i, s, j]"] jk Q by simp
qed

lemma strategy_loop_minimal:
  assumes run: "for_each (strategy_iteration e p c strats bv (i, s) True True True) js st = (None, st')"
    and js: "sorted_wrt (<) js"
  shows "\<forall>j\<in>set js. \<exists>H' b. combined_hamiltonian p (fst (snd (solve_quantum p (strats ! j)))) = Inr H' \<and> H' \<noteq> [] \<and>
           snd (snd st') = Fin b \<and> (j = 0 \<longrightarrow> snd (snd st') = beta_of H' bv) \<and>
           adiabatic_minimal_gap e bv b H' = Inr (gap_minimal (fst st') [i, s, j])"
proof (rule for_each_cells [OF run js])
  fix k t t'
  assume "strategy_iteration e p c strats bv (i, s) True True True k t = (None, t')"
  then have "strategy_iteration e p c strats bv (i, s) True True True k (fst t, fst (snd t), snd (snd t))
               = (None, fst t', fst (snd t'), snd (snd t'))"
    by simp
  then show "\<exists>H' b. combined_hamiltonian p (fst (snd (solve_quantum p (strats ! k)))) = Inr H' \<and> H' \<noteq> [] \<and>
           snd (snd t') = Fin b \<and> (k = 0 \<longrightarrow> snd (snd t') = beta_of H' bv) \<and>
           adiabatic_minimal_gap e bv b H' = Inr (gap_minimal (fst t') [i, s, k])"
    using strategy_iteration_minimal by fastforce
next
  fix j k t r' t'
  assume jk: "j < k"
    and "strategy_iteration e p c strats bv (i, s) True True True k t = (r', t')"
    and Q: "\<exists>H' b. combined_hamiltonian p (fst (snd (solve_quantum p (strats ! j)))) = Inr H' \<and> H' \<noteq> [] \<and>
           snd (snd t) = Fin b \<and> (j = 0 \<longrightarrow> snd (snd t) = beta_of H' bv) \<and>
           adiabatic_minimal_gap e bv b H' = Inr (gap_minimal (fst t) [i, s, j])"
  then have it: "strategy_iteration e p c strats bv (i, s) True True True k (fst t, fst (snd t), snd (snd t))
               = (r', fst t', fst (snd t'), snd (snd t'))"
    by simp
  show "\<exists>H' b. combined_hamiltonian p (fst (snd (solve_quantum p (strats ! j)))) = Inr H' \<and> H' \<noteq> [] \<and>
           snd (snd t') = Fin b \<and> (j = 0 \<longrightarrow> snd (snd t') = beta_of H' bv) \<and>
           adiabatic_minimal_gap e bv b H' = Inr (gap_minimal (fst t') [i, s, j])"
    using strategy_iteration_other [OF it, of "[i, s, j]"] strategy_iteration_beta [OF it] jk Q by simp
qed

subsection \<open>Evaluating the small batch\<close>

lemma rint_nearest: "\<bar>of_int (rint v) - v\<bar> \<le> 1 / 2"
proof -
  have "of_int \<lfloor>v\<rfloor> \<le> v" "v < of_int \<lfloor>v\<rfloor> + 1" by linarith+
  then show ?thesis
    by (auto simp: rint_def Let_def)
qed

lemma toy_rint: "rint (9 / 10) = 1" "rint (1 / 5) = 0" "rint (1 / 10) = 0" "rint (6 / 5) = 1"
  "rint (5 / 2) = 2" "rint (7 / 2) = 4" "rint (4 / 3) = 1"
  by (simp_all add: rint_def Let_def)

lemma toy_combined:
  "combined_hamiltonian (toy_problem\<lparr>qp_name := n\<rparr>) 2 = Inr [0, 1, 1, 4]"
  "combined_hamiltonian (toy_problem\<lparr>qp_name := n\<rparr>) 6 = Inr [0, 1, 1, 8]"
  by (simp_all add: combined_hamiltonian_def toy_problem_def np_elementwise_def)

lemma toy_beta: "beta_of [0, 1, 1, 4] 2 = Fin 2" "beta_of [0, 1, 1, 8] 2 = Fin 4"
  by (simp_all add: beta_of_def np_divide_def)

lemma toy_init: "initial_hamiltonian_adiabatic toy_env 2 = [[1,0,0,0],[0,0,0,0],[0,0,0,0],[0,0,0,0]]"
  by (simp add: toy_env_def np_diag_def upt_rec numeral_eq_Suc)

lemma toy_diag: "np_diag [a, b, c, d] = [[a,0,0,0],[0,b,0,0],[0,0,c,0],[0,0,0,d]]"
  by (simp add: np_diag_def upt_rec numeral_eq_Suc)

lemma toy_amg:
  "adiabatic_minimal_gap toy_env 2 2 [0, 1, 1, 4] = Inr (Fin (47 / 194))"
  "adiabatic_minimal_gap toy_env 2 2 [0, 1, 1, 8] = Inr (Fin (47 / 390))"
  by (simp_all add: adiabatic_minimal_gap_def toy_init toy_diag mat_add_def mat_scale_def
      same_shape_def alpha_def Let_def np_unique_def np_divide_def,
      simp_all add: toy_env_def upt_rec numeral_eq_Suc np_unique_def np_divide_def)

lemma toy_solve:
  "solve_quantum toy_problem ''a'' =
     (\<lparr>res_fval = 7 / 2, res_x = [9 / 10, 1 / 5], res_success = True\<rparr>, 2, 1 / 4)"
  "solve_quantum toy_problem ''b'' =
     (\<lparr>res_fval = 4 / 3, res_x = [1 / 10, 6 / 5], res_success = True\<rparr>, 6, 1 / 2)"
  "solve_exact toy_problem = \<lparr>res_fval = 5 / 2, res_x = [0, 1], res_success = True\<rparr>"
  "get_gap_total toy_problem H Hc M = 1"
  by (simp_all add: toy_problem_def)

lemma toy_iteration_0:
  "strategy_iteration toy_env (toy_problem\<lparr>qp_name := n\<rparr>) c [''a'', ''b''] 2 (i, s) True True True 0
     (d, xs, Fin 0) =
   (None,
    set_gap_minimal [i, s, 0] (Fin (47 / 194))
      (set_gap_norm [i, s, 0] (Fin (1 / 4))
        (set_gap [i, s, 0] 1
          (set_time [i, s, 0] (1 / 4)
            (set_M [i, s, 0] 2
              (set_fval [i, s, 1, 0] 4
                (set_fval [i, s, 0, 0] (of_int (rint (res_fval c))) d)))))),
    xs[0 := [1, 0]], Fin 2)"
  by (simp add: strategy_iteration_def toy_solve toy_rint assign_row_def gap_analysis_def
      toy_combined toy_beta toy_amg Let_def)
     (simp add: set_defs np_divide_def)

lemma toy_iteration_1:
  "strategy_iteration toy_env (toy_problem\<lparr>qp_name := n\<rparr>) c [''a'', ''b''] 2 (i, s) True True True (Suc 0)
     (d, xs, Fin 2) =
   (None,
    set_gap_minimal [i, s, 1] (Fin (47 / 390))
      (set_gap_norm [i, s, 1] (Fin (1 / 8))
        (set_gap [i, s, 1] 1
          (set_time [i, s, 1] (1 / 2)
            (set_M [i, s, 1] 6
              (set_fval [i, s, 1, 1] 1
                (set_fval [i, s, 0, 1] (of_int (rint (res_fval c))) d)))))),
    xs[Suc 0 := [0, 1]], Fin 2)"
  by (simp add: strategy_iteration_def toy_solve toy_rint assign_row_def gap_analysis_def
      toy_combined toy_beta toy_amg Let_def)
     (simp add: set_defs np_divide_def)

lemma toy_run_instance:
  assumes "i < length (bvars d)" "bvars d ! i = 2"
  shows "run_instance toy_env n [''a'', ''b''] (i, s) True True True d =
     (Inr (toy_problem\<lparr>qp_name := n\<rparr>, [[1, 0], [0, 1]]), 
      set_gap_minimal [i, s, 1] (Fin (47 / 390))
      (set_gap_norm [i, s, 1] (Fin (1 / 8))
        (set_gap [i, s, 1] 1
          (set_time [i, s, 1] (1 / 2)
            (set_M [i, s, 1] 6
              (set_fval [i, s, 1, 1] 1
                (set_fval [i, s, 0, 1] 2
      (set_gap_minimal [i, s, 0] (Fin (47 / 194))
        (set_gap_norm [i, s, 0] (Fin (1 / 4))
          (set_gap [i, s, 0] 1
            (set_time [i, s, 0] (1 / 4)
              (set_M [i, s, 0] 2
                (set_fval [i, s, 1, 0] 4
                  (set_fval [i, s, 0, 0] 2 d))))))))))))))"
  using assms
  by (simp add: run_instance_def Let_def toy_env_def [THEN arg_cong, of read_model] upt_rec
      toy_iteration_0 toy_iteration_1 toy_solve toy_rint)

subsection \<open>Facts about the spectrum and the solution rows\<close>

lemma np_unique_sorted: "sorted (np_unique vs)" "distinct (np_unique vs)" "set (np_unique vs) = set vs"
  by (simp_all add: np_unique_def)

lemma sorted_le_last:
  fixes xs :: "real list"
  shows "sorted xs \<Longrightarrow> x \<in> set xs \<Longrightarrow> x \<le> last xs"
  by (induction xs) auto

lemma sorted_distinct_ends:
  fixes evs :: "real list"
  assumes "sorted evs" "distinct evs" "2 \<le> length evs"
  shows "evs ! 0 = Min (set evs)" "last evs = Max (set evs)"
    "evs ! 1 = Min (set evs - {Min (set evs)})" "evs ! 0 < evs ! 1" "evs ! 0 < last evs"
proof -
  obtain a b rest where evs: "evs = a # b # rest"
    using assms(3) by (cases evs; cases "tl evs") auto
  have ab: "a < b" and arest: "\<forall>x\<in>set rest. a < x" and brest: "\<forall>x\<in>set rest. b < x"
    using assms(1,2) by (auto simp: evs less_le)
  show 0: "evs ! 0 = Min (set evs)"
    using ab arest by (auto simp: evs intro!: Min_eqI [symmetric] less_imp_le)
  have "set evs - {a} = insert b (set rest)"
    using assms(2) by (auto simp: evs)
  moreover have "Min (insert b (set rest)) = b"
    by (rule Min_eqI) (use brest in \<open>auto intro: less_imp_le\<close>)
  ultimately show "evs ! 1 = Min (set evs - {Min (set evs)})"
    using 0 by (simp add: evs)
  show "evs ! 0 < evs ! 1" using ab by (simp add: evs)
  have all_le: "\<forall>x\<in>set evs. x \<le> last evs"
    using assms(1) sorted_le_last by blast
  have ne: "evs \<noteq> []" by (simp add: evs)
  have "Max (set evs) = last evs"
    by (rule Max_eqI) (use all_le ne in auto)
  then show "last evs = Max (set evs)" by simp
  have "b \<le> last evs" using all_le by (simp add: evs)
  then show "evs ! 0 < last evs" using ab by (simp add: evs)
qed

lemma adiabatic_minimal_gap_Inr:
  assumes "adiabatic_minimal_gap e bv b H' = Inr g"
  shows "\<exists>H_mix. mat_add (mat_scale (1 - 98 / 100) (mat_scale b (initial_hamiltonian_adiabatic e bv)))
                     (mat_scale (98 / 100) (np_diag H')) = Inr H_mix \<and>
           2 \<le> length (np_unique (eigvalsh e H_mix)) \<and>
           g = Fin ((np_unique (eigvalsh e H_mix) ! 1 - np_unique (eigvalsh e H_mix) ! 0) /
                    (last (np_unique (eigvalsh e H_mix)) - np_unique (eigvalsh e H_mix) ! 0))"
proof -
  obtain H_mix where m: "mat_add (mat_scale (1 - alpha) (mat_scale b (initial_hamiltonian_adiabatic e bv)))
                     (mat_scale alpha (np_diag H')) = Inr H_mix"
    and l: "2 \<le> length (np_unique (eigvalsh e H_mix))"
    and g: "g = np_divide (np_unique (eigvalsh e H_mix) ! 1 - np_unique (eigvalsh e H_mix) ! 0)
                    (last (np_unique (eigvalsh e H_mix)) - np_unique (eigvalsh e H_mix) ! 0)"
    using assms
    by (auto simp: adiabatic_minimal_gap_def Let_def split: sum.splits if_splits)
  have "np_unique (eigvalsh e H_mix) ! 0 < last (np_unique (eigvalsh e H_mix))"
    by (rule sorted_distinct_ends(5) [OF np_unique_sorted(1,2) l])
  then show ?thesis
    using m l g by (auto simp: np_divide_def alpha_def)
qed

lemma strategy_loop_length:
  assumes "for_each (strategy_iteration e p c strats bv (i, s) ag agq aga) js st = (r, st')"
  shows "length (fst (snd st')) = length (fst (snd st))"
proof (rule for_each_invariant [OF assms, where P = "\<lambda>t. length (fst (snd t)) = length (fst (snd st))"])
  show "length (fst (snd st)) = length (fst (snd st))" by simp
next
  fix k t r' t'
  assume "length (fst (snd t)) = length (fst (snd st))"
    and "strategy_iteration e p c strats bv (i, s) ag agq aga k t = (r', t')"
  then show "length (fst (snd t')) = length (fst (snd st))"
    using strategy_iteration_xs(1) [of e p c strats bv i s ag agq aga k "fst t" "fst (snd t)" "snd (snd t)"
        r' "fst t'" "fst (snd t')" "snd (snd t')"]
    by simp
qed

subsection \<open>What run_instance stores\<close>

lemma toy_sample_eq:
  "toy_sample =
     (Inr (toy_problem\<lparr>qp_name := ''toys/2/a.lp''\<rparr>, [[1, 0], [0, 1]]),
      set_gap_minimal [0, 0, 1] (Fin (47 / 390))
      (set_gap_norm [0, 0, 1] (Fin (1 / 8))
        (set_gap [0, 0, 1] 1
          (set_time [0, 0, 1] (1 / 2)
            (set_M [0, 0, 1] 6
              (set_fval [0, 0, 1, 1] 1
                (set_fval [0, 0, 0, 1] 2
      (set_gap_minimal [0, 0, 0] (Fin (47 / 194))
        (set_gap_norm [0, 0, 0] (Fin (1 / 4))
          (set_gap [0, 0, 0] 1
            (set_time [0, 0, 0] (1 / 4)
              (set_M [0, 0, 0] 2
                (set_fval [0, 0, 1, 0] 4
                  (set_fval [0, 0, 0, 0] 2 toy_data))))))))))))))"
  unfolding toy_sample_def
  by (rule toy_run_instance) (simp_all add: toy_data_def Datas_def)

text \<open>
  C7. After \<open>run_instance\<close> has returned, for every strategy \<open>j\<close> the stored classical
  and quantum objective values are the objective values of the exact and of the quantum
  solve rounded to the nearest integer, so both are integers; and the row \<open>j\<close> of the
  returned array is the quantum solution vector rounded entrywise to integers (the
  solution vector has one entry per binary variable of the size).
\<close>

theorem run_instance_rounded_values:
  assumes run: "run_instance e filename strats (i, s) ag agq aga d = (Inr (p, xs), d')"
    and j: "j < length strats"
  shows "fval d' [i, s, 0, j] = of_int (rint (res_fval (solve_exact p))) \<and>
         fval d' [i, s, 1, j] = of_int (rint (res_fval (fst (solve_quantum p (strats ! j))))) \<and>
         fval d' [i, s, 0, j] \<in> \<int> \<and> fval d' [i, s, 1, j] \<in> \<int> \<and>
         \<bar>fval d' [i, s, 0, j] - res_fval (solve_exact p)\<bar> \<le> 1 / 2 \<and>
         \<bar>fval d' [i, s, 1, j] - res_fval (fst (solve_quantum p (strats ! j)))\<bar> \<le> 1 / 2 \<and>
         (length (res_x (fst (solve_quantum p (strats ! j)))) = bvars d ! i \<longrightarrow>
            xs ! j = map rint (res_x (fst (solve_quantum p (strats ! j)))))"
proof -
  from run obtain bf' where
    loop: "for_each (strategy_iteration e p (solve_exact p) strats (bvars d ! i) (i, s) ag agq aga)
           [0..<length strats] (d, replicate (length strats) (replicate (bvars d ! i) 0), Fin 0)
         = (None, d', xs, bf')"
    by (rule run_instance_Inr)
  have jin: "j \<in> set [0..<length strats]" using j by simp
  have c: "fval d' [i, s, 0, j] = of_int (rint (res_fval (solve_exact p)))"
    and q: "fval d' [i, s, 1, j] = of_int (rint (res_fval (fst (solve_quantum p (strats ! j)))))"
    using strategy_loop_cells [OF loop] jin by auto
  have len: "length xs = length strats"
    using strategy_loop_length [OF loop] by simp
  have row: "assign_row (bvars d ! i) (map rint (res_x (fst (solve_quantum p (strats ! j))))) = Inr (xs ! j)"
    using strategy_loop_xs [OF loop] jin len j by auto
  have x: "xs ! j = map rint (res_x (fst (solve_quantum p (strats ! j))))"
    if "length (res_x (fst (solve_quantum p (strats ! j)))) = bvars d ! i"
    using row that by (simp add: assign_row_def)
  show ?thesis
    using c q x rint_nearest [of "res_fval (solve_exact p)"]
      rint_nearest [of "res_fval (fst (solve_quantum p (strats ! j)))"]
    by simp
qed

theorem run_instance_rounded_values_witness:
  "fst toy_sample = Inr (toy_problem\<lparr>qp_name := ''toys/2/a.lp''\<rparr>, [[1, 0], [0, 1]]) \<and>
   fval (snd toy_sample) [0, 0, 0, 1] = 2 \<and> fval (snd toy_sample) [0, 0, 1, 1] = 1 \<and>
   [[1, 0], [0, 1]] ! 1 = map rint [1 / 10, 6 / 5]"
proof -
  have run: "run_instance toy_env ''toys/2/a.lp'' [''a'', ''b''] (0, 0) True True True toy_data
      = (Inr (toy_problem\<lparr>qp_name := ''toys/2/a.lp''\<rparr>, [[1, 0], [0, 1]]), snd toy_sample)"
    by (simp add: toy_sample_eq toy_sample_def [symmetric])
  have bv: "bvars toy_data ! 0 = 2" by (simp add: toy_data_def Datas_def)
  show ?thesis
    using run_instance_rounded_values [OF run, of 1] bv
    by (simp add: toy_sample_eq toy_solve toy_rint)
qed

text \<open>
  C3. With gap and normalized-gap analysis enabled, after \<open>run_instance\<close> has returned
  the stored raw gap of every strategy \<open>j\<close> is \<open>get_gap_total\<close> on \<open>H\<close>, \<open>Hc\<close> and the
  penalty \<open>M\<close> of the strategy, and the stored normalized gap is the stored raw gap
  divided by \<open>max(H') - min(H')\<close>, where \<open>H' = H + M*Hc\<close>.
\<close>

theorem run_instance_normalized_gap:
  assumes run: "run_instance e filename strats (i, s) True True aga d = (Inr (p, xs), d')"
    and j: "j < length strats"
  shows "\<exists>H'. combined_hamiltonian p (fst (snd (solve_quantum p (strats ! j)))) = Inr H' \<and>
           (length (get_obj_hamiltonian p) = length (get_constraint_hamiltonian p) \<longrightarrow>
              H' = map2 (+) (get_obj_hamiltonian p)
                     (map ((*) (fst (snd (solve_quantum p (strats ! j))))) (get_constraint_hamiltonian p))) \<and>
           gap d' [i, s, j] = get_gap_total p (get_obj_hamiltonian p) (get_constraint_hamiltonian p)
                                (fst (snd (solve_quantum p (strats ! j)))) \<and>
           gap_norm d' [i, s, j] = np_divide (gap d' [i, s, j]) (Max (set H') - Min (set H')) \<and>
           (Max (set H') - Min (set H') \<noteq> 0 \<longrightarrow>
              gap_norm d' [i, s, j] = Fin (gap d' [i, s, j] / (Max (set H') - Min (set H'))))"
proof -
  from run obtain bf' where
    loop: "for_each (strategy_iteration e p (solve_exact p) strats (bvars d ! i) (i, s) True True aga)
           [0..<length strats] (d, replicate (length strats) (replicate (bvars d ! i) 0), Fin 0)
         = (None, d', xs, bf')"
    by (rule run_instance_Inr)
  have jin: "j \<in> set [0..<length strats]" using j by simp
  have srt: "sorted_wrt (<) [0..<length strats]" by simp
  have "\<exists>H'. combined_hamiltonian p (fst (snd (solve_quantum p (strats ! j)))) = Inr H' \<and> H' \<noteq> [] \<and>
           gap_norm d' [i, s, j] = np_divide (gap d' [i, s, j]) (Max (set H') - Min (set H'))"
    using bspec [OF strategy_loop_norm [OF loop srt] jin] by simp
  then obtain H' where H': "combined_hamiltonian p (fst (snd (solve_quantum p (strats ! j)))) = Inr H'"
    and n: "gap_norm d' [i, s, j] = np_divide (gap d' [i, s, j]) (Max (set H') - Min (set H'))"
    by (elim exE conjE)
  have g: "gap d' [i, s, j] = get_gap_total p (get_obj_hamiltonian p) (get_constraint_hamiltonian p)
                                (fst (snd (solve_quantum p (strats ! j))))"
    using bspec [OF strategy_loop_gap [OF loop srt] jin] by simp
  have m: "H' = map2 (+) (get_obj_hamiltonian p)
                     (map ((*) (fst (snd (solve_quantum p (strats ! j))))) (get_constraint_hamiltonian p))"
    if "length (get_obj_hamiltonian p) = length (get_constraint_hamiltonian p)"
    using H' that by (simp add: combined_hamiltonian_def np_elementwise_def)
  have f: "gap_norm d' [i, s, j] = Fin (gap d' [i, s, j] / (Max (set H') - Min (set H')))"
    if "Max (set H') - Min (set H') \<noteq> 0"
    using n that by (simp add: np_divide_def)
  show ?thesis
  proof (intro exI [of _ H'] conjI impI)
    show "combined_hamiltonian p (fst (snd (solve_quantum p (strats ! j)))) = Inr H'"
      by (rule H')
    show "gap d' [i, s, j] = get_gap_total p (get_obj_hamiltonian p) (get_constraint_hamiltonian p)
                                (fst (snd (solve_quantum p (strats ! j))))"
      by (rule g)
    show "gap_norm d' [i, s, j] = np_divide (gap d' [i, s, j]) (Max (set H') - Min (set H'))"
      by (rule n)
  next
    assume "length (get_obj_hamiltonian p) = length (get_constraint_hamiltonian p)"
    then show "H' = map2 (+) (get_obj_hamiltonian p)
                     (map ((*) (fst (snd (solve_quantum p (strats ! j))))) (get_constraint_hamiltonian p))"
      by (rule m)
  next
    assume "Max (set H') - Min (set H') \<noteq> 0"
    then show "gap_norm d' [i, s, j] = Fin (gap d' [i, s, j] / (Max (set H') - Min (set H')))"
      by (rule f)
  qed
qed

theorem run_instance_normalized_gap_witness:
  "fst toy_sample = Inr (toy_problem\<lparr>qp_name := ''toys/2/a.lp''\<rparr>, [[1, 0], [0, 1]]) \<and>
   gap (snd toy_sample) [0, 0, 1] = 1 \<and> gap_norm (snd toy_sample) [0, 0, 1] = Fin (1 / 8) \<and>
   combined_hamiltonian (toy_problem\<lparr>qp_name := ''toys/2/a.lp''\<rparr>) 6 = Inr [0, 1, 1, 8]"
proof -
  have run: "run_instance toy_env ''toys/2/a.lp'' [''a'', ''b''] (0, 0) True True True toy_data
      = (Inr (toy_problem\<lparr>qp_name := ''toys/2/a.lp''\<rparr>, [[1, 0], [0, 1]]), snd toy_sample)"
    by (simp add: toy_sample_eq toy_sample_def [symmetric])
  show ?thesis
    using run_instance_normalized_gap [OF run, of 1]
    by (simp add: toy_sample_eq toy_solve toy_combined np_divide_def)
qed

lemma run_instance_minimal:
  assumes run: "run_instance e filename strats (i, s) True True True d = (Inr (p, xs), d')"
    and j: "j < length strats"
  shows "\<exists>H0 Hj b. combined_hamiltonian p (fst (snd (solve_quantum p (strats ! 0)))) = Inr H0 \<and>
           combined_hamiltonian p (fst (snd (solve_quantum p (strats ! j)))) = Inr Hj \<and>
           beta_of H0 (bvars d ! i) = Fin b \<and>
           adiabatic_minimal_gap e (bvars d ! i) b Hj = Inr (gap_minimal d' [i, s, j])"
proof -
  from run obtain bf' where
    loop: "for_each (strategy_iteration e p (solve_exact p) strats (bvars d ! i) (i, s) True True True)
           [0..<length strats] (d, replicate (length strats) (replicate (bvars d ! i) 0), Fin 0)
         = (None, d', xs, bf')"
    by (rule run_instance_Inr)
  have jin: "j \<in> set [0..<length strats]" and zin: "0 \<in> set [0..<length strats]" using j by auto
  have srt: "sorted_wrt (<) [0..<length strats]" by simp
  have "\<exists>H' b. combined_hamiltonian p (fst (snd (solve_quantum p (strats ! 0)))) = Inr H' \<and> H' \<noteq> [] \<and>
           bf' = Fin b \<and> (0 = (0::nat) \<longrightarrow> bf' = beta_of H' (bvars d ! i)) \<and>
           adiabatic_minimal_gap e (bvars d ! i) b H' = Inr (gap_minimal d' [i, s, 0])"
    using bspec [OF strategy_loop_minimal [OF loop srt] zin] by simp
  then obtain H0 where H0: "combined_hamiltonian p (fst (snd (solve_quantum p (strats ! 0)))) = Inr H0"
    and b0: "bf' = beta_of H0 (bvars d ! i)"
    by (elim exE conjE) simp
  have "\<exists>H' b. combined_hamiltonian p (fst (snd (solve_quantum p (strats ! j)))) = Inr H' \<and> H' \<noteq> [] \<and>
           bf' = Fin b \<and> (j = 0 \<longrightarrow> bf' = beta_of H' (bvars d ! i)) \<and>
           adiabatic_minimal_gap e (bvars d ! i) b H' = Inr (gap_minimal d' [i, s, j])"
    using bspec [OF strategy_loop_minimal [OF loop srt] jin] by simp
  then obtain Hj b where Hj: "combined_hamiltonian p (fst (snd (solve_quantum p (strats ! j)))) = Inr Hj"
    and b: "bf' = Fin b"
    and g: "adiabatic_minimal_gap e (bvars d ! i) b Hj = Inr (gap_minimal d' [i, s, j])"
    by (elim exE conjE)
  have "beta_of H0 (bvars d ! i) = Fin b" using b0 b by simp
  then show ?thesis using H0 Hj g by (intro exI [of _ H0] exI [of _ Hj] exI [of _ b]) simp
qed

lemma toy_fixture_spectrum:
  "mat_add (mat_scale (1 - 98 / 100) (mat_scale 0 (initial_hamiltonian_adiabatic toy_env 2)))
           (mat_scale (98 / 100) (np_diag [0, 0, 50 / 49, 100 / 49]))
     = Inr [[0, 0, 0, 0], [0, 0, 0, 0], [0, 0, 1, 0], [0, 0, 0, 2]]"
  "eigvalsh toy_env [[0, 0, 0, 0], [0, 0, 0, 0], [0, 0, 1, 0], [0, 0, 0, 2]] = [0, 0, 1, 2]"
  by (simp_all add: toy_init toy_diag mat_add_def mat_scale_def same_shape_def)
     (simp add: toy_env_def upt_rec numeral_eq_Suc)

text \<open>
  C1. With gap, normalized-gap and adiabatic-gap analysis enabled, after \<open>run_instance\<close>
  has returned the stored minimal gap of every strategy is computed as follows:
  \<open>H_mix = (1 - \<alpha>) * H_0 + \<alpha> * diag(H')\<close> with \<open>\<alpha> = 0.98\<close> and \<open>H_0\<close> the initial
  Hamiltonian scaled by the fixed \<open>\<beta>\<close>; the eigenvalues of \<open>H_mix\<close> are deduplicated and
  sorted ascending; the stored value is (second-smallest - smallest) / (largest -
  smallest). For the eigenvalues 0, 0, 1, 2 the distinct values are 0, 1, 2 and the value
  is 0.5.
\<close>

theorem run_instance_minimal_gap:
  assumes run: "run_instance e filename strats (i, s) True True True d = (Inr (p, xs), d')"
    and j: "j < length strats"
  shows "(\<exists>H0 H' b H_mix evs.
            combined_hamiltonian p (fst (snd (solve_quantum p (strats ! 0)))) = Inr H0 \<and>
            combined_hamiltonian p (fst (snd (solve_quantum p (strats ! j)))) = Inr H' \<and>
            beta_of H0 (bvars d ! i) = Fin b \<and>
            mat_add (mat_scale (1 - 98 / 100) (mat_scale b (initial_hamiltonian_adiabatic e (bvars d ! i))))
                    (mat_scale (98 / 100) (np_diag H')) = Inr H_mix \<and>
            evs = np_unique (eigvalsh e H_mix) \<and>
            sorted evs \<and> distinct evs \<and> set evs = set (eigvalsh e H_mix) \<and> 2 \<le> length evs \<and>
            evs ! 0 = Min (set evs) \<and> evs ! 1 = Min (set evs - {Min (set evs)}) \<and>
            last evs = Max (set evs) \<and>
            gap_minimal d' [i, s, j] = Fin ((evs ! 1 - evs ! 0) / (last evs - evs ! 0))) \<and>
         np_unique [0, 0, 1, 2] = [0, 1, 2] \<and>
         (mat_add (mat_scale (1 - 98 / 100) (mat_scale b' (initial_hamiltonian_adiabatic e' bv')))
                  (mat_scale (98 / 100) (np_diag H'')) = Inr H_mix' \<and>
          eigvalsh e' H_mix' = [0, 0, 1, 2] \<longrightarrow>
            adiabatic_minimal_gap e' bv' b' H'' = Inr (Fin (1 / 2)))"
proof (intro conjI impI)
  obtain H0 H' b where H0: "combined_hamiltonian p (fst (snd (solve_quantum p (strats ! 0)))) = Inr H0"
    and H': "combined_hamiltonian p (fst (snd (solve_quantum p (strats ! j)))) = Inr H'"
    and b: "beta_of H0 (bvars d ! i) = Fin b"
    and g: "adiabatic_minimal_gap e (bvars d ! i) b H' = Inr (gap_minimal d' [i, s, j])"
    using run_instance_minimal [OF run j] by (elim exE conjE)
  obtain H_mix where m: "mat_add (mat_scale (1 - 98 / 100) (mat_scale b (initial_hamiltonian_adiabatic e (bvars d ! i))))
                     (mat_scale (98 / 100) (np_diag H')) = Inr H_mix"
    and l: "2 \<le> length (np_unique (eigvalsh e H_mix))"
    and v: "gap_minimal d' [i, s, j] =
              Fin ((np_unique (eigvalsh e H_mix) ! 1 - np_unique (eigvalsh e H_mix) ! 0) /
                    (last (np_unique (eigvalsh e H_mix)) - np_unique (eigvalsh e H_mix) ! 0))"
    using adiabatic_minimal_gap_Inr [OF g] by (elim exE conjE)
  let ?evs = "np_unique (eigvalsh e H_mix)"
  note ends = sorted_distinct_ends [OF np_unique_sorted(1,2) l]
  show "\<exists>H0 H' b H_mix evs.
            combined_hamiltonian p (fst (snd (solve_quantum p (strats ! 0)))) = Inr H0 \<and>
            combined_hamiltonian p (fst (snd (solve_quantum p (strats ! j)))) = Inr H' \<and>
            beta_of H0 (bvars d ! i) = Fin b \<and>
            mat_add (mat_scale (1 - 98 / 100) (mat_scale b (initial_hamiltonian_adiabatic e (bvars d ! i))))
                    (mat_scale (98 / 100) (np_diag H')) = Inr H_mix \<and>
            evs = np_unique (eigvalsh e H_mix) \<and>
            sorted evs \<and> distinct evs \<and> set evs = set (eigvalsh e H_mix) \<and> 2 \<le> length evs \<and>
            evs ! 0 = Min (set evs) \<and> evs ! 1 = Min (set evs - {Min (set evs)}) \<and>
            last evs = Max (set evs) \<and>
            gap_minimal d' [i, s, j] = Fin ((evs ! 1 - evs ! 0) / (last evs - evs ! 0))"
    apply (rule exI [of _ H0], rule exI [of _ H'], rule exI [of _ b], rule exI [of _ H_mix],
        rule exI [of _ ?evs])
    using H0 H' b m l v ends(1,2,3) np_unique_sorted [of "eigvalsh e H_mix"]
    by simp
next
  show "np_unique [0, 0, 1, 2] = [0, 1, 2]"
    by (simp add: np_unique_def)
next
  assume "mat_add (mat_scale (1 - 98 / 100) (mat_scale b' (initial_hamiltonian_adiabatic e' bv')))
                  (mat_scale (98 / 100) (np_diag H'')) = Inr H_mix' \<and>
          eigvalsh e' H_mix' = [0, 0, 1, 2]"
  then show "adiabatic_minimal_gap e' bv' b' H'' = Inr (Fin (1 / 2))"
    by (simp add: adiabatic_minimal_gap_def alpha_def Let_def np_unique_def np_divide_def)
qed

theorem run_instance_minimal_gap_witness:
  "fst toy_sample = Inr (toy_problem\<lparr>qp_name := ''toys/2/a.lp''\<rparr>, [[1, 0], [0, 1]]) \<and>
   gap_minimal (snd toy_sample) [0, 0, 1] = Fin (47 / 390) \<and>
   adiabatic_minimal_gap toy_env 2 0 [0, 0, 50 / 49, 100 / 49] = Inr (Fin (1 / 2))"
proof -
  have run: "run_instance toy_env ''toys/2/a.lp'' [''a'', ''b''] (0, 0) True True True toy_data
      = (Inr (toy_problem\<lparr>qp_name := ''toys/2/a.lp''\<rparr>, [[1, 0], [0, 1]]), snd toy_sample)"
    by (simp add: toy_sample_eq toy_sample_def [symmetric])
  show ?thesis
    using run_instance_minimal_gap [OF run, of 1 0 toy_env 2 "[0, 0, 50 / 49, 100 / 49]"
        "[[0, 0, 0, 0], [0, 0, 0, 0], [0, 0, 1, 0], [0, 0, 0, 2]]"]
      toy_fixture_spectrum
    by (simp add: toy_sample_eq set_defs)
qed

lemma toy_amg_own_beta:
  "adiabatic_minimal_gap toy_env 2 4 [0, 1, 1, 8] = Inr (Fin (45 / 388))"
  by (simp add: adiabatic_minimal_gap_def toy_init toy_diag mat_add_def mat_scale_def
      same_shape_def alpha_def Let_def)
     (simp add: toy_env_def upt_rec numeral_eq_Suc np_unique_def np_divide_def)

text \<open>
  C2. With adiabatic analysis enabled, \<open>\<beta> = max(|min(H')|, |max(H')|) / bvars\<close> is
  computed in every round of the strategy loop, but the \<open>H_0\<close> of every strategy's
  minimal-gap computation is scaled by the \<open>\<beta>\<close> of strategy 0: after \<open>run_instance\<close> has
  returned, the stored minimal gap of strategy \<open>j\<close> is the minimal gap computed from the
  combined Hamiltonian of strategy \<open>j\<close> and the \<open>\<beta>\<close> of the combined Hamiltonian of
  strategy 0.
\<close>

theorem run_instance_beta_fixed:
  assumes run: "run_instance e filename strats (i, s) True True True d = (Inr (p, xs), d')"
    and j: "j < length strats"
  shows "\<exists>H0 Hj. combined_hamiltonian p (fst (snd (solve_quantum p (strats ! 0)))) = Inr H0 \<and>
           combined_hamiltonian p (fst (snd (solve_quantum p (strats ! j)))) = Inr Hj \<and>
           bvars d ! i \<noteq> 0 \<and>
           beta_of H0 (bvars d ! i) = Fin (max \<bar>Min (set H0)\<bar> \<bar>Max (set H0)\<bar> / real (bvars d ! i)) \<and>
           adiabatic_minimal_gap e (bvars d ! i)
             (max \<bar>Min (set H0)\<bar> \<bar>Max (set H0)\<bar> / real (bvars d ! i)) Hj
           = Inr (gap_minimal d' [i, s, j])"
proof -
  obtain H0 Hj b where H0: "combined_hamiltonian p (fst (snd (solve_quantum p (strats ! 0)))) = Inr H0"
    and Hj: "combined_hamiltonian p (fst (snd (solve_quantum p (strats ! j)))) = Inr Hj"
    and b: "beta_of H0 (bvars d ! i) = Fin b"
    and g: "adiabatic_minimal_gap e (bvars d ! i) b Hj = Inr (gap_minimal d' [i, s, j])"
    using run_instance_minimal [OF run j] by (elim exE conjE)
  have nz: "bvars d ! i \<noteq> 0" and bv: "b = max \<bar>Min (set H0)\<bar> \<bar>Max (set H0)\<bar> / real (bvars d ! i)"
    using b by (auto simp: beta_of_def np_divide_def split: if_splits)
  show ?thesis
    apply (rule exI [of _ H0], rule exI [of _ Hj])
    using H0 Hj nz b g bv by simp
qed

theorem run_instance_beta_fixed_witness:
  "fst toy_sample = Inr (toy_problem\<lparr>qp_name := ''toys/2/a.lp''\<rparr>, [[1, 0], [0, 1]]) \<and>
   beta_of [0, 1, 1, 4] 2 = Fin 2 \<and> beta_of [0, 1, 1, 8] 2 = Fin 4 \<and>
   gap_minimal (snd toy_sample) [0, 0, 1] = Fin (47 / 390) \<and>
   adiabatic_minimal_gap toy_env 2 2 [0, 1, 1, 8] = Inr (Fin (47 / 390)) \<and>
   adiabatic_minimal_gap toy_env 2 4 [0, 1, 1, 8] = Inr (Fin (45 / 388))"
proof -
  have run: "run_instance toy_env ''toys/2/a.lp'' [''a'', ''b''] (0, 0) True True True toy_data
      = (Inr (toy_problem\<lparr>qp_name := ''toys/2/a.lp''\<rparr>, [[1, 0], [0, 1]]), snd toy_sample)"
    by (simp add: toy_sample_eq toy_sample_def [symmetric])
  show ?thesis
    using run_instance_beta_fixed [OF run, of 1] toy_amg_own_beta toy_amg toy_beta
    by (simp add: toy_sample_eq set_defs)
qed

lemma for_each_count:
  fixes m :: "'s \<Rightarrow> nat"
  assumes "for_each body js s = (None, s')" and "distinct js"
    and "\<And>k t t'. k \<in> set js \<Longrightarrow> body k t = (None, t') \<Longrightarrow> m t' = m t + (if k = j then 1 else 0)"
  shows "m s' = m s + (if j \<in> set js then 1 else 0)"
  using assms
proof (induction js arbitrary: s)
  case Nil
  then show ?case by simp
next
  case (Cons k ks)
  obtain r1 t where b: "body k s = (r1, t)" by (cases "body k s")
  have r1: "r1 = None" using Cons.prems(1) b by (cases r1) auto
  have rest: "for_each body ks t = (None, s')" using Cons.prems(1) b r1 by simp
  have mt: "m t = m s + (if k = j then 1 else 0)"
    using Cons.prems(3) [of k s t] b r1 by simp
  have "m s' = m t + (if j \<in> set ks then 1 else 0)"
    by (rule Cons.IH [OF rest]) (use Cons.prems in auto)
  then show ?case using mt Cons.prems(2) by auto
qed

lemma strategy_iteration_count:
  assumes "strategy_iteration e p c strats bv (i, s) ag agq aga k (d, xs, bf) = (r, d', xs', bf')"
  shows "count_list (writes d') (FVAL, [i, s, 0, j])
           = count_list (writes d) (FVAL, [i, s, 0, j]) + (if k = j then 1 else 0)"
proof -
  obtain new where w: "writes d' = writes d @ (FVAL, [i, s, 0, k]) # new"
    and sn: "set new \<subseteq> {(FVAL, [i, s, 1, k]), (PENALTY_M, [i, s, k]), (TIME, [i, s, k]),
                       (GAP, [i, s, k]), (GAP_NORM, [i, s, k]), (GAP_MINIMAL, [i, s, k])}"
    using strategy_iteration_writes [OF assms] by (elim exE conjE)
  have "(FVAL, [i, s, 0, j]) \<notin> set new" using sn by auto
  then have "count_list new (FVAL, [i, s, 0, j]) = 0" by (simp add: count_list_0_iff)
  then show ?thesis by (simp add: w)
qed

text \<open>
  C10. After \<open>run_instance\<close> has returned, the classical slot of every strategy column
  holds one value, the rounded objective of the one exact solve of the sample; the value
  is stored once in every round of the strategy loop, not once per sample.
\<close>

theorem run_instance_classical_replicated:
  assumes run: "run_instance e filename strats (i, s) ag agq aga d = (Inr (p, xs), d')"
  shows "\<forall>j<length strats.
           fval d' [i, s, 0, j] = of_int (rint (res_fval (solve_exact p))) \<and>
           count_list (writes d') (FVAL, [i, s, 0, j]) = count_list (writes d) (FVAL, [i, s, 0, j]) + 1"
proof (intro allI impI)
  fix j assume j: "j < length strats"
  from run obtain bf' where
    loop: "for_each (strategy_iteration e p (solve_exact p) strats (bvars d ! i) (i, s) ag agq aga)
           [0..<length strats] (d, replicate (length strats) (replicate (bvars d ! i) 0), Fin 0)
         = (None, d', xs, bf')"
    by (rule run_instance_Inr)
  have jin: "j \<in> set [0..<length strats]" using j by simp
  have srt: "sorted_wrt (<) [0..<length strats]" by simp
  have c: "fval d' [i, s, 0, j] = of_int (rint (res_fval (solve_exact p)))"
    using bspec [OF strategy_loop_cells [OF loop srt] jin] by simp
  have "count_list (writes (fst (d', xs, bf'))) (FVAL, [i, s, 0, j])
          = count_list (writes (fst (d, replicate (length strats) (replicate (bvars d ! i) (0::int)), Fin 0)))
              (FVAL, [i, s, 0, j])
            + (if j \<in> set [0..<length strats] then 1 else 0)"
  proof (rule for_each_count [OF loop])
    show "distinct [0..<length strats]" by simp
  next
    fix k t t'
    assume "strategy_iteration e p (solve_exact p) strats (bvars d ! i) (i, s) ag agq aga k t = (None, t')"
    then have "strategy_iteration e p (solve_exact p) strats (bvars d ! i) (i, s) ag agq aga k
                 (fst t, fst (snd t), snd (snd t)) = (None, fst t', fst (snd t'), snd (snd t'))"
      by simp
    then show "count_list (writes (fst t')) (FVAL, [i, s, 0, j])
                 = count_list (writes (fst t)) (FVAL, [i, s, 0, j]) + (if k = j then 1 else 0)"
      by (rule strategy_iteration_count)
  qed
  then show "fval d' [i, s, 0, j] = of_int (rint (res_fval (solve_exact p))) \<and>
           count_list (writes d') (FVAL, [i, s, 0, j]) = count_list (writes d) (FVAL, [i, s, 0, j]) + 1"
    using c jin by simp
qed

theorem run_instance_classical_replicated_witness:
  "fst toy_sample = Inr (toy_problem\<lparr>qp_name := ''toys/2/a.lp''\<rparr>, [[1, 0], [0, 1]]) \<and>
   fval (snd toy_sample) [0, 0, 0, 0] = 2 \<and> fval (snd toy_sample) [0, 0, 0, 1] = 2 \<and>
   count_list (writes (snd toy_sample)) (FVAL, [0, 0, 0, 0]) = 1 \<and>
   count_list (writes (snd toy_sample)) (FVAL, [0, 0, 0, 1]) = 1"
proof -
  have run: "run_instance toy_env ''toys/2/a.lp'' [''a'', ''b''] (0, 0) True True True toy_data
      = (Inr (toy_problem\<lparr>qp_name := ''toys/2/a.lp''\<rparr>, [[1, 0], [0, 1]]), snd toy_sample)"
    by (simp add: toy_sample_eq toy_sample_def [symmetric])
  have w: "writes toy_data = []" by (simp add: toy_data_def Datas_def)
  show ?thesis
    using run_instance_classical_replicated [OF run] w
    by (simp add: toy_sample_eq toy_solve toy_rint)
qed

subsection \<open>The trace of stores\<close>

lemma for_each_writes:
  fixes lg :: "'s \<Rightarrow> 'w list"
  assumes "for_each body js s = (r, s')" and "distinct js"
    and "\<And>k t r' t'. k \<in> set js \<Longrightarrow> body k t = (r', t') \<Longrightarrow>
           \<exists>new. lg t' = lg t @ new \<and> distinct new \<and> set new \<subseteq> W k"
    and "\<And>j k. j \<in> set js \<Longrightarrow> k \<in> set js \<Longrightarrow> j \<noteq> k \<Longrightarrow> W j \<inter> W k = {}"
  shows "\<exists>new. lg s' = lg s @ new \<and> distinct new \<and> set new \<subseteq> (\<Union>k\<in>set js. W k)"
  using assms
proof (induction js arbitrary: s)
  case Nil
  then show ?case by simp
next
  case (Cons k ks)
  obtain r1 t where b: "body k s = (r1, t)" by (cases "body k s")
  obtain new1 where n1: "lg t = lg s @ new1" "distinct new1" "set new1 \<subseteq> W k"
    using Cons.prems(3) [of k s r1 t] b by auto
  show ?case
  proof (cases r1)
    case (Some err)
    then have "s' = t" using Cons.prems(1) b by simp
    then show ?thesis using n1 by auto
  next
    case None
    then have rest: "for_each body ks t = (r, s')" using Cons.prems(1) b by simp
    have "\<exists>new. lg s' = lg t @ new \<and> distinct new \<and> set new \<subseteq> (\<Union>k\<in>set ks. W k)"
      by (rule Cons.IH [OF rest]) (use Cons.prems in auto)
    then obtain new2 where n2: "lg s' = lg t @ new2" "distinct new2" "set new2 \<subseteq> (\<Union>k\<in>set ks. W k)"
      by (elim exE conjE)
    have "W k \<inter> (\<Union>j\<in>set ks. W j) = {}"
      using Cons.prems(2,4) by fastforce
    then have "set new1 \<inter> set new2 = {}" using n1(3) n2(3) by blast
    then have "distinct (new1 @ new2)" using n1(2) n2(2) by simp
    moreover have "set (new1 @ new2) \<subseteq> (\<Union>k\<in>set (k # ks). W k)" using n1(3) n2(3) by auto
    moreover have "lg s' = lg s @ (new1 @ new2)" using n1(1) n2(1) by simp
    ultimately show ?thesis by blast
  qed
qed

lemma run_instance_cases:
  assumes "run_instance e filename strats (i, s) ag agq aga d = (res, d')"
  obtains (index) "\<not> i < length (bvars d)" "d' = d" "res = Inl IndexError"
    | (loop) r xs' bf' where
      "for_each (strategy_iteration e ((read_model e filename)\<lparr>qp_name := filename\<rparr>)
             (solve_exact ((read_model e filename)\<lparr>qp_name := filename\<rparr>)) strats (bvars d ! i) (i, s) ag agq aga)
           [0..<length strats] (d, replicate (length strats) (replicate (bvars d ! i) 0), Fin 0)
         = (r, d', xs', bf')"
      "length xs' = length strats"
      "res = (case r of Some err \<Rightarrow> Inl err | None \<Rightarrow> Inr ((read_model e filename)\<lparr>qp_name := filename\<rparr>, xs'))"
proof (cases "i < length (bvars d)")
  case False
  show ?thesis
    by (rule index) (use assms False in \<open>simp_all add: run_instance_def\<close>)
next
  case True
  let ?p = "(read_model e filename)\<lparr>qp_name := filename\<rparr>"
  obtain r d1 xs' bf' where l: "for_each (strategy_iteration e ?p (solve_exact ?p) strats (bvars d ! i) (i, s) ag agq aga)
           [0..<length strats] (d, replicate (length strats) (replicate (bvars d ! i) 0), Fin 0)
         = (r, d1, xs', bf')"
    by (metis prod_cases4)
  have len: "length xs' = length strats"
    using strategy_loop_length [OF l] by simp
  have d1: "d1 = d'" and res: "res = (case r of Some err \<Rightarrow> Inl err | None \<Rightarrow> Inr (?p, xs'))"
    using assms True l by (auto simp: run_instance_def Let_def split: option.splits)
  show ?thesis
    by (rule loop [OF l [unfolded d1] len res])
qed

lemma run_instance_writes:
  assumes "run_instance e filename strats (i, s) ag agq aga d = (res, d')"
  shows "\<exists>new. writes d' = writes d @ new \<and> distinct new \<and>
           set new \<subseteq> {w. fst w \<in> {FVAL, PENALTY_M, TIME, GAP, GAP_NORM, GAP_MINIMAL} \<and>
                          take 2 (snd w) = [i, s]}"
  using assms
proof (cases rule: run_instance_cases)
  case index
  then show ?thesis by simp
next
  case (loop r xs' bf')
  let ?W = "\<lambda>j. {(FVAL, [i, s, 0, j]), (FVAL, [i, s, 1, j]), (PENALTY_M, [i, s, j]), (TIME, [i, s, j]),
                  (GAP, [i, s, j]), (GAP_NORM, [i, s, j]), (GAP_MINIMAL, [i, s, j])}"
  have "\<exists>new. writes (fst (d', xs', bf'))
                = writes (fst (d, replicate (length strats) (replicate (bvars d ! i) (0::int)), Fin 0)) @ new \<and>
              distinct new \<and> set new \<subseteq> (\<Union>k\<in>set [0..<length strats]. ?W k)"
  proof (rule for_each_writes [OF loop(1)])
    show "distinct [0..<length strats]" by simp
  next
    fix j k :: nat
    assume "j \<noteq> k"
    then show "?W j \<inter> ?W k = {}" by simp
  next
    fix k t r' t'
    assume "strategy_iteration e ((read_model e filename)\<lparr>qp_name := filename\<rparr>)
             (solve_exact ((read_model e filename)\<lparr>qp_name := filename\<rparr>)) strats (bvars d ! i) (i, s) ag agq aga k t
            = (r', t')"
    then have "strategy_iteration e ((read_model e filename)\<lparr>qp_name := filename\<rparr>)
             (solve_exact ((read_model e filename)\<lparr>qp_name := filename\<rparr>)) strats (bvars d ! i) (i, s) ag agq aga k
             (fst t, fst (snd t), snd (snd t)) = (r', fst t', fst (snd t'), snd (snd t'))"
      by simp
    from strategy_iteration_writes [OF this]
    obtain new where n: "writes (fst t') = writes (fst t) @ (FVAL, [i, s, 0, k]) # new"
      "distinct new"
      "set new \<subseteq> {(FVAL, [i, s, 1, k]), (PENALTY_M, [i, s, k]), (TIME, [i, s, k]),
                       (GAP, [i, s, k]), (GAP_NORM, [i, s, k]), (GAP_MINIMAL, [i, s, k])}"
      by (elim exE conjE)
    have "distinct ((FVAL, [i, s, 0, k]) # new)" using n(2,3) by auto
    moreover have "set ((FVAL, [i, s, 0, k]) # new) \<subseteq> ?W k" using n(3) by auto
    ultimately show "\<exists>new. writes (fst t') = writes (fst t) @ new \<and> distinct new \<and> set new \<subseteq> ?W k"
      using n(1) by blast
  qed
  then obtain new where n: "writes d' = writes d @ new" "distinct new"
    "set new \<subseteq> (\<Union>k\<in>set [0..<length strats]. ?W k)"
    by auto
  have "(\<Union>k\<in>set [0..<length strats]. ?W k)
          \<subseteq> {w. fst w \<in> {FVAL, PENALTY_M, TIME, GAP, GAP_NORM, GAP_MINIMAL} \<and> take 2 (snd w) = [i, s]}"
    by auto
  then show ?thesis using n by blast
qed

lemma feasibility_iteration_writes:
  assumes "feasibility_iteration p xs i s j d = (r, d')"
  shows "\<exists>new. writes d' = writes d @ new \<and> distinct new \<and>
           set new \<subseteq> {(IS_FEASIBLE, [i, s, j]), (N_VIOLATIONS, [i, s, j]), (MAX_VIOLATION, [i, s, j])}"
  using assms
  by (auto simp: feasibility_iteration_def evaluate_feasibility_eq split: if_splits)

lemma sample_iteration_writes:
  assumes "sample_iteration e folder files strats i ag agq aga s d = (r, d')"
  shows "\<exists>new. writes d' = writes d @ new \<and> distinct new \<and> set new \<subseteq> {w. take 2 (snd w) = [i, s]}"
proof -
  obtain res d1 where ri: "run_instance e (folder @ files ! s) strats (i, s) ag agq aga d = (res, d1)"
    by (cases "run_instance e (folder @ files ! s) strats (i, s) ag agq aga d")
  obtain new1 where n1: "writes d1 = writes d @ new1" "distinct new1"
    "set new1 \<subseteq> {w. fst w \<in> {FVAL, PENALTY_M, TIME, GAP, GAP_NORM, GAP_MINIMAL} \<and> take 2 (snd w) = [i, s]}"
    using run_instance_writes [OF ri] by (elim exE conjE)
  show ?thesis
  proof (cases res)
    case (Inl err)
    then have "d' = d1" using assms ri by (simp add: sample_iteration_def)
    then show ?thesis using n1 by auto
  next
    case (Inr pxs)
    obtain p xs where pxs: "pxs = (p, xs)" by (cases pxs)
    have fl: "for_each (feasibility_iteration p xs i s) [0..<length strats] d1 = (r, d')"
      using assms ri Inr pxs by (simp add: sample_iteration_def)
    let ?W = "\<lambda>j. {(IS_FEASIBLE, [i, s, j]), (N_VIOLATIONS, [i, s, j]), (MAX_VIOLATION, [i, s, j])}"
    have "\<exists>new. writes d' = writes d1 @ new \<and> distinct new \<and>
                set new \<subseteq> (\<Union>k\<in>set [0..<length strats]. ?W k)"
    proof (rule for_each_writes [OF fl])
      show "distinct [0..<length strats]" by simp
    next
      fix j k :: nat
      assume "j \<noteq> k"
      then show "?W j \<inter> ?W k = {}" by simp
    next
      fix k t r' t'
      assume "feasibility_iteration p xs i s k t = (r', t')"
      then show "\<exists>new. writes t' = writes t @ new \<and> distinct new \<and> set new \<subseteq> ?W k"
        by (rule feasibility_iteration_writes)
    qed
    then obtain new2 where n2: "writes d' = writes d1 @ new2" "distinct new2"
      "set new2 \<subseteq> (\<Union>k\<in>set [0..<length strats]. ?W k)"
      by (elim exE conjE)
    have f2: "\<forall>w\<in>set new2. fst w \<in> {IS_FEASIBLE, N_VIOLATIONS, MAX_VIOLATION} \<and> take 2 (snd w) = [i, s]"
      using n2(3) by auto
    have f1: "\<forall>w\<in>set new1. fst w \<in> {FVAL, PENALTY_M, TIME, GAP, GAP_NORM, GAP_MINIMAL}"
      using n1(3) by auto
    have "set new1 \<inter> set new2 = {}"
    proof (rule ccontr)
      assume "set new1 \<inter> set new2 \<noteq> {}"
      then obtain w where "w \<in> set new1" "w \<in> set new2" by blast
      then have "fst w \<in> {FVAL, PENALTY_M, TIME, GAP, GAP_NORM, GAP_MINIMAL}"
        and "fst w \<in> {IS_FEASIBLE, N_VIOLATIONS, MAX_VIOLATION}"
        using f1 f2 by blast+
      then show False by auto
    qed
    then have "distinct (new1 @ new2)" using n1(2) n2(2) by simp
    moreover have "set (new1 @ new2) \<subseteq> {w. take 2 (snd w) = [i, s]}"
      using n1(3) f2 by auto
    moreover have "writes d' = writes d @ (new1 @ new2)" using n1(1) n2(1) by simp
    ultimately show ?thesis by blast
  qed
qed

lemma size_iteration_writes:
  assumes "size_iteration e test_set bvs n_samples strats ag agq aga i d = (r, d')"
  shows "\<exists>new. writes d' = writes d @ new \<and> distinct new \<and> set new \<subseteq> {w. take 1 (snd w) = [i]}"
proof (cases "listdir e (folder_of test_set (bvs ! i))")
  case None
  then have "d' = d" using assms by (simp add: size_iteration_def Let_def)
  then show ?thesis by simp
next
  case (Some names)
  show ?thesis
  proof (cases "length (sort names) < n_samples")
    case True
    then have "d' = d" using assms Some by (simp add: size_iteration_def Let_def)
    then show ?thesis by simp
  next
    case False
    then have sl: "for_each (sample_iteration e (folder_of test_set (bvs ! i)) (sort names) strats i ag agq aga)
                     [0..<n_samples] d = (r, d')"
      using assms Some by (simp add: size_iteration_def Let_def)
    let ?W = "\<lambda>s. {w :: field \<times> nat list. take 2 (snd w) = [i, s]}"
    have "\<exists>new. writes d' = writes d @ new \<and> distinct new \<and>
                set new \<subseteq> (\<Union>k\<in>set [0..<n_samples]. ?W k)"
    proof (rule for_each_writes [OF sl])
      show "distinct [0..<n_samples]" by simp
    next
      fix j k :: nat
      assume "j \<noteq> k"
      then show "?W j \<inter> ?W k = {}" by auto
    next
      fix k t r' t'
      assume "sample_iteration e (folder_of test_set (bvs ! i)) (sort names) strats i ag agq aga k t = (r', t')"
      then show "\<exists>new. writes t' = writes t @ new \<and> distinct new \<and> set new \<subseteq> ?W k"
        by (rule sample_iteration_writes)
    qed
    then obtain new where n: "writes d' = writes d @ new" "distinct new"
      "set new \<subseteq> (\<Union>k\<in>set [0..<n_samples]. ?W k)"
      by (elim exE conjE)
    have "\<And>k (s :: nat). take 2 k = [i, s] \<Longrightarrow> take 1 k = [i]"
    proof -
      fix k :: "nat list" and s :: nat
      assume "take 2 k = [i, s]"
      then have "take 1 (take 2 k) = [i]" by simp
      then show "take 1 k = [i]" by (simp add: min_def)
    qed
    then have "(\<Union>k\<in>set [0..<n_samples]. ?W k) \<subseteq> {w. take 1 (snd w) = [i]}"
      by blast
    then show ?thesis using n by blast
  qed
qed

text \<open>
  C8. In a whole batch run no cell of the results arrays is stored twice: the trace of
  stores of \<open>run_test\<close>, which records the array and the index of every store in
  \<open>run_instance\<close> and in \<open>evaluate_feasibility\<close>, has no repeated entry, whether the run
  returns or raises.
\<close>

theorem run_test_stores_once:
  "distinct (writes (snd (run_test e blank test_set bvs n_samples strats ag agq aga)))"
proof -
  obtain r d' where rt: "run_test e blank test_set bvs n_samples strats ag agq aga = (r, d')"
    by (cases "run_test e blank test_set bvs n_samples strats ag agq aga")
  then have fl: "for_each (size_iteration e test_set bvs n_samples strats ag agq aga) [0..<length bvs]
                   (Datas blank bvs n_samples (length strats)) = (r, d')"
    by (simp add: run_test_def Let_def)
  let ?W = "\<lambda>i. {w :: field \<times> nat list. take 1 (snd w) = [i]}"
  have "\<exists>new. writes d' = writes (Datas blank bvs n_samples (length strats)) @ new \<and> distinct new \<and>
              set new \<subseteq> (\<Union>k\<in>set [0..<length bvs]. ?W k)"
  proof (rule for_each_writes [OF fl])
    show "distinct [0..<length bvs]" by simp
  next
    fix j k :: nat
    assume "j \<noteq> k"
    then show "?W j \<inter> ?W k = {}" by auto
  next
    fix k t r' t'
    assume "size_iteration e test_set bvs n_samples strats ag agq aga k t = (r', t')"
    then show "\<exists>new. writes t' = writes t @ new \<and> distinct new \<and> set new \<subseteq> ?W k"
      by (rule size_iteration_writes)
  qed
  then have "distinct (writes d')" by (auto simp: Datas_def)
  then show ?thesis by (simp add: rt)
qed

subsection \<open>The batch driver\<close>

text \<open>
  C6. If the folder of a size holds fewer files than the requested number of samples,
  and the sizes before it have completed, \<open>run_test\<close> raises the \<open>ValueError\<close> whose
  message names the folder, the number of files found and the number of samples
  requested. It raises before any sample of that size is processed, so \<open>data\<close> is as the
  earlier sizes left it, and no later size is run: the batch ends with the error.
\<close>

theorem run_test_folder_error:
  assumes i: "i < length bvs"
    and earlier: "for_each (size_iteration e test_set bvs n_samples strats ag agq aga) [0..<i]
                    (Datas blank bvs n_samples (length strats)) = (None, d)"
    and names: "listdir e (test_set @ ''/'' @ str_nat (bvs ! i) @ ''/'') = Some names"
    and few: "length names < n_samples"
  shows "run_test e blank test_set bvs n_samples strats ag agq aga =
           (Some (ValueError (''Folder '' @ (test_set @ ''/'' @ str_nat (bvs ! i) @ ''/'')
                              @ '' contains only '' @ str_nat (length names)
                              @ '' instances, '' @ str_nat n_samples @ '' were requested'')), d)"
proof -
  have split: "[0..<length bvs] = [0..<i] @ i # [Suc i..<length bvs]"
    using i by (metis le_add2 le_add_same_cancel2 less_imp_add_positive upt_add_eq_append upt_conv_Cons)
  have step: "size_iteration e test_set bvs n_samples strats ag agq aga i d =
           (Some (ValueError (''Folder '' @ (test_set @ ''/'' @ str_nat (bvs ! i) @ ''/'')
                              @ '' contains only '' @ str_nat (length names)
                              @ '' instances, '' @ str_nat n_samples @ '' were requested'')), d)"
    using names few by (simp add: size_iteration_def folder_of_def folder_error_def Let_def)
  show ?thesis
    unfolding run_test_def Let_def split for_each_append
    using earlier step by simp
qed

theorem run_test_folder_error_witness:
  "run_test toy_env blank_datas ''toys'' [2] 5 [''a'', ''b''] False False False =
     (Some (ValueError ''Folder toys/2/ contains only 3 instances, 5 were requested''),
      Datas blank_datas [2] 5 2)"
proof -
  have folder: "''toys'' @ ''/'' @ str_nat ([2] ! 0) @ ''/'' = ''toys/2/''"
    by code_simp
  have names: "listdir toy_env (''toys'' @ ''/'' @ str_nat ([2] ! 0) @ ''/'') = Some [''c.lp'', ''a.lp'', ''b.lp'']"
    unfolding folder by (simp add: toy_env_def)
  have msg: "''Folder '' @ (''toys'' @ ''/'' @ str_nat ([2] ! 0) @ ''/'')
               @ '' contains only '' @ str_nat (length [''c.lp'', ''a.lp'', ''b.lp''])
               @ '' instances, '' @ str_nat 5 @ '' were requested''
             = ''Folder toys/2/ contains only 3 instances, 5 were requested''"
    by code_simp
  have i: "0 < length [2::nat]" by simp
  have earlier: "for_each (size_iteration toy_env ''toys'' [2] 5 [''a'', ''b''] False False False) [0..<0]
                    (Datas blank_datas [2] 5 (length [''a'', ''b''])) = (None, Datas blank_datas [2] 5 2)"
    by (simp add: Datas_def)
  have few: "length [''c.lp'', ''a.lp'', ''b.lp''] < (5::nat)" by simp
  show ?thesis
    using run_test_folder_error [OF i earlier names few] unfolding msg .
qed

end
